theory Spec2Isabelle
  imports Main "HOL-Library.AList"
begin

section \<open>JavaScript values\<close>

text \<open>
  Property values, segment payloads and thrown values are dynamically typed in the
  source. \<open>JObj\<close> stands for any object (an \<open>Error\<close>, a JSON object), named by a string.
\<close>

datatype jsvalue = JUndefined | JNull | JBool bool | JNum int | JStr string | JObj string

text \<open>The truthiness test of \<open>if (v)\<close>.\<close>

fun truthy :: "jsvalue \<Rightarrow> bool" where
  "truthy JUndefined = False"
| "truthy JNull = False"
| "truthy (JBool b) = b"
| "truthy (JNum n) = (n \<noteq> 0)"
| "truthy (JStr s) = (s \<noteq> [])"
| "truthy (JObj s) = True"

section \<open>Merge-tree ops and delta events\<close>

text \<open>
  A \<open>PropertySet\<close> is an object used as a dictionary: its keys in insertion order, each
  with its value. \<open>map_of\<close> reads a key, \<open>AList.update\<close> assigns to one.
\<close>

type_synonym PropertySet = "(string \<times> jsvalue) list"

text \<open>
  \<open>IMergeTreeOp\<close>: the tagged variant of the spec's data model (Insert, Remove, Annotate,
  Group). The fields are \<open>pos1\<close>, \<open>seg\<close> for an insert, \<open>pos1\<close>, \<open>pos2\<close> for a remove,
  \<open>pos1\<close>, \<open>pos2\<close>, \<open>props\<close>, \<open>combiningOp\<close> for an annotate and \<open>ops\<close> for a group.
  Positions are JavaScript numbers holding integers.
\<close>

datatype IMergeTreeOp =
    InsertOp int jsvalue
  | RemoveOp int int
  | AnnotateOp int int PropertySet "string option"
  | GroupOp "IMergeTreeOp list"

text \<open>
  Modelled from the spec: the op builders \<open>createInsertOp\<close>, \<open>createRemoveRangeOp\<close>,
  \<open>createAnnotateRangeOp\<close> and \<open>createGroupOp\<close> of the merge-tree package are not among
  the sources; each builds the variant of the spec's Op type from its arguments.
\<close>

definition createInsertOp :: "int \<Rightarrow> jsvalue \<Rightarrow> IMergeTreeOp" where
  "createInsertOp pos segSpec = InsertOp pos segSpec"

definition createRemoveRangeOp :: "int \<Rightarrow> int \<Rightarrow> IMergeTreeOp" where
  "createRemoveRangeOp start end = RemoveOp start end"

definition createAnnotateRangeOp ::
    "int \<Rightarrow> int \<Rightarrow> PropertySet \<Rightarrow> string option \<Rightarrow> IMergeTreeOp" where
  "createAnnotateRangeOp start end props combiningOp = AnnotateOp start end props combiningOp"

definition createGroupOp :: "IMergeTreeOp list \<Rightarrow> IMergeTreeOp" where
  "createGroupOp ops = GroupOp ops"

text \<open>
  Modelled from the spec: \<open>matchProperties\<close> of the merge-tree package is not among the
  sources; the spec merges annotate ranges "with identical resulting properties", so two
  property sets match when every key of either has the same value in both.
\<close>

definition matchProperties :: "PropertySet \<Rightarrow> PropertySet \<Rightarrow> bool" where
  "matchProperties a b = list_all (\<lambda>key. map_of a key = map_of b key) (map fst a @ map fst b)"

text \<open>
  A segment as \<open>createOpsFromDelta\<close> reads it: its property bag, its cached length and
  the JSON object \<open>toJSONObject()\<close> returns.
\<close>

record ISegment =
  properties :: PropertySet
  cachedLength :: int
  toJSONObject :: jsvalue

text \<open>
  One range of a delta event. \<open>propertyDeltas\<close> is an object; only its keys are read
  (\<open>Object.keys\<close>), in insertion order.
\<close>

record ISequenceDeltaRange =
  position :: int
  segment :: ISegment
  propertyDeltas :: "(string \<times> jsvalue) list"

datatype MergeTreeDeltaType = INSERT | REMOVE | ANNOTATE | GROUP

record SequenceDeltaEvent =
  deltaOperation :: MergeTreeDeltaType
  ranges :: "ISequenceDeltaRange list"

subsection \<open>createOpsFromDelta\<close>

text \<open>\<open>ops[ops.length - 1]\<close>: \<open>undefined\<close> on the empty array.\<close>

definition lastOp :: "IMergeTreeOp list \<Rightarrow> IMergeTreeOp option" where
  "lastOp ops = (if ops = [] then None else Some (last ops))"

text \<open>
  The inner loop of the ANNOTATE case: for every key of \<open>r.propertyDeltas\<close> the current
  value of the segment's property, \<open>null\<close> where it is \<open>undefined\<close>.
\<close>

definition resultingProps :: "ISequenceDeltaRange \<Rightarrow> PropertySet" where
  "resultingProps r =
     foldl (\<lambda>props key. AList.update key
              (case map_of (properties (segment r)) key of
                 None \<Rightarrow> JNull
               | Some JUndefined \<Rightarrow> JNull
               | Some v \<Rightarrow> v) props)
       [] (map fst (propertyDeltas r))"

text \<open>
  One iteration of the loop in the ANNOTATE case. The array starts empty and the event's
  \<open>deltaOperation\<close> is the same in every iteration, so the last op, when there is one, is
  an annotate op; for any other op \<open>matchProperties(undefined, props)\<close> is false and the
  source pushes, as the last equation does.
\<close>

definition annotateStep :: "IMergeTreeOp list \<Rightarrow> ISequenceDeltaRange \<Rightarrow> IMergeTreeOp list" where
  "annotateStep ops r =
     (let props = resultingProps r;
          pushed = ops @ [createAnnotateRangeOp (position r)
                            (position r + cachedLength (segment r)) props None]
      in case lastOp ops of
           Some (AnnotateOp p1 p2 lastProps cop) \<Rightarrow>
             if p2 = position r \<and> matchProperties lastProps props
             then butlast ops @ [AnnotateOp p1 (p2 + cachedLength (segment r)) lastProps cop]
             else pushed
         | _ \<Rightarrow> pushed)"

text \<open>
  One iteration in the REMOVE case: the last op is a remove op whenever there is one
  (see above); it is extended when it starts where the range is.
\<close>

definition removeStep :: "IMergeTreeOp list \<Rightarrow> ISequenceDeltaRange \<Rightarrow> IMergeTreeOp list" where
  "removeStep ops r =
     (let pushed = ops @ [createRemoveRangeOp (position r)
                            (position r + cachedLength (segment r))]
      in case lastOp ops of
           Some (RemoveOp p1 p2) \<Rightarrow>
             if p1 = position r
             then butlast ops @ [RemoveOp p1 (p2 + cachedLength (segment r))]
             else pushed
         | _ \<Rightarrow> pushed)"

text \<open>One iteration in the INSERT case; \<open>cloneDeep\<close> of a value is the value.\<close>

definition insertStep :: "IMergeTreeOp list \<Rightarrow> ISequenceDeltaRange \<Rightarrow> IMergeTreeOp list" where
  "insertStep ops r = ops @ [createInsertOp (position r) (toJSONObject (segment r))]"

definition createOpsFromDelta :: "SequenceDeltaEvent \<Rightarrow> IMergeTreeOp list" where
  "createOpsFromDelta event =
     foldl (\<lambda>ops r.
       case deltaOperation event of
         ANNOTATE \<Rightarrow> annotateStep ops r
       | INSERT \<Rightarrow> insertStep ops r
       | REMOVE \<Rightarrow> removeStep ops r
       | _ \<Rightarrow> ops) [] (ranges event)"

section \<open>The sequence: messages, object store and state\<close>

text \<open>
  \<open>ISequencedDocumentMessage\<close>, with the fields the sequence reads or writes and two
  others that a copy has to carry along. \<open>contents\<close> is the merge-tree op.
\<close>

record ISequencedDocumentMessage =
  clientId :: string
  sequenceNumber :: int
  referenceSequenceNumber :: int
  minimumSequenceNumber :: int
  messageType :: string
  contents :: IMergeTreeOp

text \<open>
  Message envelopes are JavaScript objects: the history buffer holds references, and
  \<open>processMergeTreeMsg\<close> and \<open>snapshotMergeTree\<close> assign to fields of the objects they
  reach. The store maps an address to the object there; \<open>nextAddr\<close> is the first address
  not yet allocated, so an object that exists has an address below it.
\<close>

type_synonym addr = nat

text \<open>The state of a \<open>Deferred\<close>: its promise is pending, resolved, or rejected with a cause.\<close>

datatype deferred = Pending | Resolved | Rejected jsvalue

text \<open>
  The fields of \<open>SharedSegmentSequence\<close> the modelled methods touch, the object store, and
  \<open>submitted\<close>: the messages handed to \<open>submitLocalMessage\<close>, in order. The merge-tree
  client is not among the sources; what its calls return is an argument of each method.
\<close>

record sequence_state =
  store :: "addr \<Rightarrow> ISequencedDocumentMessage"
  nextAddr :: addr
  messagesSinceMSNChange :: "addr list"
  submitted :: "IMergeTreeOp list"
  isLoaded :: bool
  loadedDeferred :: deferred

text \<open>\<open>cloneDeep(message)\<close>: a new object with the same field values.\<close>

definition cloneDeep :: "sequence_state \<Rightarrow> addr \<Rightarrow> addr \<times> sequence_state" where
  "cloneDeep st a =
     (nextAddr st,
      st\<lparr>store := (store st)(nextAddr st := store st a), nextAddr := Suc (nextAddr st)\<rparr>)"

subsection \<open>processMinSequenceNumberChanged\<close>

text \<open>The \<open>for\<close> loop, from a given value of \<open>index\<close>.\<close>

function scanIndex ::
    "(addr \<Rightarrow> ISequencedDocumentMessage) \<Rightarrow> addr list \<Rightarrow> int \<Rightarrow> nat \<Rightarrow> nat" where
  "scanIndex s buf minSeq index =
     (if index < length buf
      then (if sequenceNumber (s (buf ! index)) > minSeq then index
            else scanIndex s buf minSeq (Suc index))
      else index)"
  by pat_completeness auto
termination
  by (relation "measure (\<lambda>(s, buf, minSeq, index). length buf - index)") auto

declare scanIndex.simps [simp del]

definition processMinSequenceNumberChanged :: "sequence_state \<Rightarrow> int \<Rightarrow> sequence_state" where
  "processMinSequenceNumberChanged st minSeq =
     (let index = scanIndex (store st) (messagesSinceMSNChange st) minSeq 0
      in if index \<noteq> 0
         then st\<lparr>messagesSinceMSNChange := drop index (messagesSinceMSNChange st)\<rparr>
         else st)"

subsection \<open>processMergeTreeMsg\<close>

text \<open>
  What \<open>client.applyMsg(message)\<close> does, as far as the sequence sees it: it throws, or it
  returns after emitting \<open>sequenceDelta\<close> events to the listeners installed at that time.
\<close>

datatype applyOutcome = Throws jsvalue | Emits "SequenceDeltaEvent list"

text \<open>
  \<open>message\<close> is the address of the object \<open>parseHandles(rawMessage, ...)\<close> returned. The
  result is the thrown value, if \<open>applyMsg\<close> threw, and the state reached. The listener
  \<open>transfromOps\<close> is installed only when the message needs transformation; it appends
  \<open>createOpsFromDelta(event)\<close> to \<open>ops\<close> for every event.
\<close>

definition processMergeTreeMsg ::
    "sequence_state \<Rightarrow> addr \<Rightarrow> applyOutcome \<Rightarrow> jsvalue option \<times> sequence_state" where
  "processMergeTreeMsg st message applied =
     (let needsTransformation =
            (referenceSequenceNumber (store st message) \<noteq> sequenceNumber (store st message) - 1);
          (stashMessage, st1) =
            (if needsTransformation
             then (let (c, s) = cloneDeep st message
                   in (c, s\<lparr>store := (store s)(c := (store s c)
                            \<lparr>referenceSequenceNumber := sequenceNumber (store s message) - 1\<rparr>)\<rparr>))
             else (message, st))
      in case applied of
           Throws e \<Rightarrow> (Some e, st1)
         | Emits events \<Rightarrow>
             (let ops = (if needsTransformation then concat (map createOpsFromDelta events) else []);
                  st2 = (if needsTransformation
                         then st1\<lparr>store := (store st1)(stashMessage := (store st1 stashMessage)
                                \<lparr>contents := (if length ops \<noteq> 1 then createGroupOp ops else ops ! 0)\<rparr>)\<rparr>
                         else st1);
                  st3 = st2\<lparr>messagesSinceMSNChange := messagesSinceMSNChange st2 @ [stashMessage]\<rparr>
              in (None,
                  if length (messagesSinceMSNChange st3) > 20 \<and>
                     sequenceNumber (store st3 (messagesSinceMSNChange st3 ! 20))
                       < minimumSequenceNumber (store st3 message)
                  then processMinSequenceNumberChanged st3 (minimumSequenceNumber (store st3 message))
                  else st3)))"

subsection \<open>snapshotMergeTree\<close>

text \<open>
  The effect of \<open>snapshotMergeTree\<close> on the state. \<open>deltaManager\<close> is the
  \<open>minimumSequenceNumber\<close> of \<open>runtime.deltaManager\<close>, \<open>None\<close> when the runtime has no delta
  manager; \<open>windowMinSeq\<close> is \<open>client.getCollabWindow().minSeq\<close> after \<open>updateSeqNumbers\<close>.
  A failed \<open>assert\<close> throws; the tree the snapshotter emits is not modelled.
\<close>

definition snapshotMergeTree ::
    "sequence_state \<Rightarrow> int option \<Rightarrow> int \<Rightarrow> jsvalue option \<times> sequence_state" where
  "snapshotMergeTree st deltaManager windowMinSeq =
     (if \<not> isLoaded st then (Some (JObj ''AssertionError''), st)
      else
        let minSeq = (case deltaManager of Some n \<Rightarrow> n | None \<Rightarrow> 0);
            st1 = (case deltaManager of
                     Some n \<Rightarrow> processMinSequenceNumberChanged st minSeq
                   | None \<Rightarrow> st)
        in if deltaManager \<noteq> None \<and> windowMinSeq \<noteq> minSeq
           then (Some (JObj ''AssertionError''), st1)
           else (None,
                 st1\<lparr>store := foldl (\<lambda>s a. s(a := (s a)\<lparr>minimumSequenceNumber := minSeq\<rparr>))
                                  (store st1) (messagesSinceMSNChange st1)\<rparr>))"

text \<open>
  The compaction the spec describes, on a buffer of addresses read through a store: when
  the buffer is longer than 20 and the entry at index 20 has a sequence number below
  \<open>minSeq\<close>, everything before the first entry with a sequence number above \<open>minSeq\<close> is
  dropped.
\<close>

definition compactionSpec ::
    "(addr \<Rightarrow> ISequencedDocumentMessage) \<Rightarrow> int \<Rightarrow> addr list \<Rightarrow> addr list" where
  "compactionSpec s minSeq buf =
     (if 20 < length buf \<and> sequenceNumber (s (buf ! 20)) < minSeq
      then dropWhile (\<lambda>a. sequenceNumber (s a) \<le> minSeq) buf
      else buf)"

section \<open>Local edits\<close>

text \<open>
  \<open>submitSequenceMessage\<close>: the message, made serializable, is handed to
  \<open>submitLocalMessage\<close>. \<open>makeHandlesSerializable\<close> is not among the sources and is an
  argument.
\<close>

definition submitSequenceMessage ::
    "(IMergeTreeOp \<Rightarrow> IMergeTreeOp) \<Rightarrow> sequence_state \<Rightarrow> IMergeTreeOp \<Rightarrow> sequence_state" where
  "submitSequenceMessage makeHandlesSerializable st message =
     st\<lparr>submitted := submitted st @ [makeHandlesSerializable message]\<rparr>"

text \<open>
  \<open>removeRange\<close> returns what \<open>client.removeRangeLocal\<close> returned (\<open>None\<close> for \<open>undefined\<close>)
  and submits it when there is one. The client's method is the first argument.
\<close>

definition removeRange ::
    "(int \<Rightarrow> int \<Rightarrow> IMergeTreeOp option) \<Rightarrow> (IMergeTreeOp \<Rightarrow> IMergeTreeOp) \<Rightarrow>
     sequence_state \<Rightarrow> int \<Rightarrow> int \<Rightarrow> IMergeTreeOp option \<times> sequence_state" where
  "removeRange removeRangeLocal makeHandlesSerializable st start end =
     (let removeOp = removeRangeLocal start end
      in (removeOp,
          case removeOp of
            Some op \<Rightarrow> submitSequenceMessage makeHandlesSerializable st op
          | None \<Rightarrow> st))"

definition annotateRange ::
    "(int \<Rightarrow> int \<Rightarrow> PropertySet \<Rightarrow> string option \<Rightarrow> IMergeTreeOp option) \<Rightarrow>
     (IMergeTreeOp \<Rightarrow> IMergeTreeOp) \<Rightarrow>
     sequence_state \<Rightarrow> int \<Rightarrow> int \<Rightarrow> PropertySet \<Rightarrow> string option \<Rightarrow> sequence_state" where
  "annotateRange annotateRangeLocal makeHandlesSerializable st start end props combiningOp =
     (case annotateRangeLocal start end props combiningOp of
        Some annotateOp \<Rightarrow> submitSequenceMessage makeHandlesSerializable st annotateOp
      | None \<Rightarrow> st)"

text \<open>
  Modelled from the spec: \<open>removeRangeLocal\<close> and \<open>annotateRangeLocal\<close> of the merge-tree
  client are not among the sources. The spec's \<open>submitLocalOp\<close> "returns a serializable Op
  (or none if the edit was a no-op, e.g., empty range)"; the op of a remove is
  Remove{startPos, endPos}, that of an annotate Annotate{startPos, endPos, propertyDeltas,
  combiningOp?}.
\<close>

definition removeRangeLocal :: "int \<Rightarrow> int \<Rightarrow> IMergeTreeOp option" where
  "removeRangeLocal start end =
     (if start = end then None else Some (createRemoveRangeOp start end))"

definition annotateRangeLocal ::
    "int \<Rightarrow> int \<Rightarrow> PropertySet \<Rightarrow> string option \<Rightarrow> IMergeTreeOp option" where
  "annotateRangeLocal start end props combiningOp =
     (if start = end then None else Some (createAnnotateRangeOp start end props combiningOp))"

section \<open>Positions\<close>

text \<open>
  A local reference: its segment (\<open>None\<close> when unset) and its offset. \<open>getPosition\<close> is
  \<open>client.getPosition\<close>, an argument.
\<close>

record LocalReference =
  lref_segment :: "ISegment option"
  lref_offset :: int

definition localRefToPos :: "(ISegment \<Rightarrow> int) \<Rightarrow> LocalReference \<Rightarrow> int" where
  "localRefToPos getPosition localRef =
     (case lref_segment localRef of
        Some seg \<Rightarrow> lref_offset localRef + getPosition seg
      | None \<Rightarrow> - 1)"

text \<open>
  \<open>resolveRemoteClientPosition\<close> hands its three arguments to the client's method of the
  same name and returns the result.
\<close>

definition resolveRemoteClientPosition ::
    "(int \<Rightarrow> int \<Rightarrow> string \<Rightarrow> int option) \<Rightarrow> int \<Rightarrow> int \<Rightarrow> string \<Rightarrow> int option" where
  "resolveRemoteClientPosition clientResolve remoteClientPosition remoteClientRefSeq remoteClientId =
     clientResolve remoteClientPosition remoteClientRefSeq remoteClientId"

text \<open>
  Modelled from the spec: \<open>Client.resolveRemoteClientPosition\<close> of the merge-tree package is
  not among the sources. The spec: it "maps a foreign client's reported position (valid as
  of refSeq) into current local coordinates" and "fails (returns a sentinel) if refSeq is
  older than the local minimumSequenceNumber". \<open>None\<close> is the sentinel; the consistent
  transform itself is the argument \<open>transform\<close>.
\<close>

definition clientResolveRemoteClientPosition ::
    "(int \<Rightarrow> int \<Rightarrow> string \<Rightarrow> int) \<Rightarrow> int \<Rightarrow> int \<Rightarrow> int \<Rightarrow> string \<Rightarrow> int option" where
  "clientResolveRemoteClientPosition transform minSeq pos refSeq cid =
     (if refSeq < minSeq then None else Some (transform pos refSeq cid))"

section \<open>Loading\<close>

text \<open>
  Modelled from the spec: \<open>Deferred\<close> of the core-utils package is not among the sources.
  Its promise is the spec's readiness signal, settled once: resolving or rejecting a
  settled one changes nothing.
\<close>

definition resolve :: "deferred \<Rightarrow> deferred" where
  "resolve d = (if d = Pending then Resolved else d)"

definition reject :: "deferred \<Rightarrow> jsvalue \<Rightarrow> deferred" where
  "reject d e = (if d = Pending then Rejected e else d)"

text \<open>
  \<open>loadFinished(error?)\<close>; a missing argument is \<open>undefined\<close>. The interval collections and
  the logger are not modelled.
\<close>

definition loadFinished :: "sequence_state \<Rightarrow> jsvalue \<Rightarrow> sequence_state" where
  "loadFinished st error =
     (if truthy error
      then st\<lparr>loadedDeferred := reject (loadedDeferred st) error\<rparr>
      else st\<lparr>isLoaded := True, loadedDeferred := resolve (loadedDeferred st)\<rparr>)"

text \<open>\<open>msgs.forEach((m) => this.processMergeTreeMsg(m))\<close>: an exception ends the loop.\<close>

fun forEachMsg ::
    "sequence_state \<Rightarrow> (addr \<times> applyOutcome) list \<Rightarrow> jsvalue option \<times> sequence_state" where
  "forEachMsg st [] = (None, st)"
| "forEachMsg st ((m, applied) # msgs) =
     (case processMergeTreeMsg st m applied of
        (Some e, st') \<Rightarrow> (Some e, st')
      | (None, st') \<Rightarrow> forEachMsg st' msgs)"

text \<open>
  \<open>loadCore\<close>. The arguments are what the collaborators do: \<open>readHeader\<close> is the outcome of
  \<open>await storage.read("header")\<close> (\<open>Inl\<close> a rejection, \<open>Inr None\<close> for \<open>undefined\<close>),
  \<open>populate\<close> tells what \<open>intervalMapKernel.populate(data)\<close> throws, if anything, and
  \<open>initialize\<close> is the outcome of \<open>await loader.initialize(...)\<close>: a rejection, or the
  messages, each with its parsed object's address and what applying it does. The result is
  the value \<open>loadCore\<close>'s own promise is rejected with (\<open>None\<close>: it is fulfilled) and the
  state reached.
\<close>

definition loadCore ::
    "sequence_state \<Rightarrow> jsvalue + string option \<Rightarrow> (string \<Rightarrow> string) \<Rightarrow>
     (string option \<Rightarrow> jsvalue option) \<Rightarrow> jsvalue + (addr \<times> applyOutcome) list \<Rightarrow>
     jsvalue option \<times> sequence_state" where
  "loadCore st readHeader fromBase64ToUtf8 populate initialize =
     (case readHeader of
        Inl e \<Rightarrow> (Some e, st)
      | Inr header \<Rightarrow>
          (let data = (case header of
                         None \<Rightarrow> None
                       | Some h \<Rightarrow> if h = [] then None else Some (fromBase64ToUtf8 h))
           in case populate data of
                Some e \<Rightarrow> (Some e, st)
              | None \<Rightarrow>
                  (case initialize of
                     Inl error \<Rightarrow> (None, loadFinished st error)
                   | Inr msgs \<Rightarrow>
                       (case forEachMsg st msgs of
                          (Some error, st') \<Rightarrow> (None, loadFinished st' error)
                        | (None, st') \<Rightarrow> (None, loadFinished st' JUndefined)))))"

text \<open>The state the constructor leaves: nothing buffered, not loaded, the deferred pending.\<close>

definition blankMessage :: ISequencedDocumentMessage where
  "blankMessage = \<lparr>clientId = [], sequenceNumber = 0, referenceSequenceNumber = 0,
     minimumSequenceNumber = 0, messageType = [], contents = GroupOp []\<rparr>"

definition newSequence :: sequence_state where
  "newSequence = \<lparr>store = (\<lambda>a. blankMessage), nextAddr = 0, messagesSinceMSNChange = [],
     submitted = [], isLoaded = False, loadedDeferred = Pending\<rparr>"

section \<open>DeltaQueueProxy\<close>

text \<open>
  The proxy's two flags, and the calls it has made on the queue it wraps, in order. Every
  method runs to its \<open>return\<close> before the caller goes on: none of them awaits.
\<close>

datatype queueCall = QueuePause | QueueResume

record DeltaQueueProxy =
  systemPaused :: bool
  localPaused :: bool
  queueCalls :: "queueCall list"

definition newProxy :: DeltaQueueProxy where
  "newProxy = \<lparr>systemPaused = False, localPaused = False, queueCalls = []\<rparr>"

definition updateResume :: "DeltaQueueProxy \<Rightarrow> DeltaQueueProxy" where
  "updateResume p =
     (if \<not> systemPaused p \<and> \<not> localPaused p
      then p\<lparr>queueCalls := queueCalls p @ [QueueResume]\<rparr>
      else p)"

definition systemPause :: "DeltaQueueProxy \<Rightarrow> DeltaQueueProxy" where
  "systemPause p = p\<lparr>systemPaused := True, queueCalls := queueCalls p @ [QueuePause]\<rparr>"

definition pause :: "DeltaQueueProxy \<Rightarrow> DeltaQueueProxy" where
  "pause p = p\<lparr>localPaused := True, queueCalls := queueCalls p @ [QueuePause]\<rparr>"

definition systemResume :: "DeltaQueueProxy \<Rightarrow> DeltaQueueProxy" where
  "systemResume p = updateResume (p\<lparr>systemPaused := False\<rparr>)"

definition resume :: "DeltaQueueProxy \<Rightarrow> DeltaQueueProxy" where
  "resume p = updateResume (p\<lparr>localPaused := False\<rparr>)"

text \<open>A caller's request, and a sequence of them run from a given state.\<close>

datatype proxyCall = SystemPause | Pause | SystemResume | Resume

fun call :: "DeltaQueueProxy \<Rightarrow> proxyCall \<Rightarrow> DeltaQueueProxy" where
  "call p SystemPause = systemPause p"
| "call p Pause = pause p"
| "call p SystemResume = systemResume p"
| "call p Resume = resume p"

definition run :: "DeltaQueueProxy \<Rightarrow> proxyCall list \<Rightarrow> DeltaQueueProxy" where
  "run p calls = foldl call p calls"

text \<open>How often the wrapped queue's \<open>resume\<close> has been invoked.\<close>

definition resumes :: "DeltaQueueProxy \<Rightarrow> nat" where
  "resumes p = length (filter (\<lambda>c. c = QueueResume) (queueCalls p))"

section \<open>Notions used in the properties\<close>

text \<open>
  The address \<open>processMergeTreeMsg\<close> pushes: the message itself when it is direct, the
  new object \<open>cloneDeep\<close> allocates otherwise.
\<close>

definition stashOf :: "sequence_state \<Rightarrow> addr \<Rightarrow> addr" where
  "stashOf st message =
     (if referenceSequenceNumber (store st message) = sequenceNumber (store st message) - 1
      then message else nextAddr st)"

text \<open>The transformed version of a message, given the ops the listener collected.\<close>

definition transformed ::
    "ISequencedDocumentMessage \<Rightarrow> IMergeTreeOp list \<Rightarrow> ISequencedDocumentMessage" where
  "transformed m ops =
     m\<lparr>referenceSequenceNumber := sequenceNumber m - 1,
       contents := (if length ops \<noteq> 1 then createGroupOp ops else ops ! 0)\<rparr>"

text \<open>
  The spec's invariant of the history buffer, for a watermark \<open>w\<close>: every buffered message
  has a sequence number above \<open>w\<close>.
\<close>

definition bufferAbove :: "int \<Rightarrow> sequence_state \<Rightarrow> bool" where
  "bufferAbove w st = (\<forall>a \<in> set (messagesSinceMSNChange st). w < sequenceNumber (store st a))"

text \<open>The buffered messages are in strictly increasing order of sequence number.\<close>

definition strictlyIncreasing :: "sequence_state \<Rightarrow> bool" where
  "strictlyIncreasing st =
     sorted_wrt (<) (map (\<lambda>a. sequenceNumber (store st a)) (messagesSinceMSNChange st))"

text \<open>Every buffered reference is to an object that exists.\<close>

definition allocated :: "sequence_state \<Rightarrow> bool" where
  "allocated st = (\<forall>a \<in> set (messagesSinceMSNChange st). a < nextAddr st)"

text \<open>
  The re-expression of one delta event as the spec words it, "adjacent same-kind deltas
  merge", written by runs from the front instead of by updates of the last op. A run of
  remove ranges is open from \<open>p1\<close> to \<open>p2\<close>; the next range extends it when it is at the
  run's start \<open>p1\<close> (what was behind the removed text has moved up to there), and starts a
  new run otherwise. A run of annotate ranges with the properties \<open>props\<close> is extended by a
  range that starts at its end \<open>p2\<close> with matching resulting properties.
\<close>

fun coalescedRemovesFrom :: "int \<Rightarrow> int \<Rightarrow> ISequenceDeltaRange list \<Rightarrow> IMergeTreeOp list" where
  "coalescedRemovesFrom p1 p2 [] = [RemoveOp p1 p2]"
| "coalescedRemovesFrom p1 p2 (r # rs) =
     (if position r = p1
      then coalescedRemovesFrom p1 (p2 + cachedLength (segment r)) rs
      else RemoveOp p1 p2 #
           coalescedRemovesFrom (position r) (position r + cachedLength (segment r)) rs)"

fun coalescedAnnotatesFrom ::
    "int \<Rightarrow> int \<Rightarrow> PropertySet \<Rightarrow> ISequenceDeltaRange list \<Rightarrow> IMergeTreeOp list" where
  "coalescedAnnotatesFrom p1 p2 props [] = [AnnotateOp p1 p2 props None]"
| "coalescedAnnotatesFrom p1 p2 props (r # rs) =
     (if position r = p2 \<and> matchProperties props (resultingProps r)
      then coalescedAnnotatesFrom p1 (p2 + cachedLength (segment r)) props rs
      else AnnotateOp p1 p2 props None #
           coalescedAnnotatesFrom (position r) (position r + cachedLength (segment r))
             (resultingProps r) rs)"

definition reexpressedSpec :: "SequenceDeltaEvent \<Rightarrow> IMergeTreeOp list" where
  "reexpressedSpec ev =
     (case deltaOperation ev of
        INSERT \<Rightarrow> map (\<lambda>r. InsertOp (position r) (toJSONObject (segment r))) (ranges ev)
      | REMOVE \<Rightarrow>
          (case ranges ev of
             [] \<Rightarrow> []
           | r # rs \<Rightarrow>
               coalescedRemovesFrom (position r) (position r + cachedLength (segment r)) rs)
      | ANNOTATE \<Rightarrow>
          (case ranges ev of
             [] \<Rightarrow> []
           | r # rs \<Rightarrow>
               coalescedAnnotatesFrom (position r) (position r + cachedLength (segment r))
                 (resultingProps r) rs)
      | GROUP \<Rightarrow> [])"

section \<open>Example inputs\<close>

definition exampleMessage :: "int \<Rightarrow> int \<Rightarrow> int \<Rightarrow> ISequencedDocumentMessage" where
  "exampleMessage seq refSeq minSeq =
     \<lparr>clientId = ''A'', sequenceNumber = seq, referenceSequenceNumber = refSeq,
      minimumSequenceNumber = minSeq, messageType = ''op'', contents = RemoveOp 0 1\<rparr>"

text \<open>
  A loaded sequence after \<open>n\<close> direct messages: the object at address \<open>a < n\<close> has sequence
  number \<open>a + 1\<close> and is buffered; the object at address \<open>n\<close> is the incoming message.
\<close>

definition exampleState :: "nat \<Rightarrow> ISequencedDocumentMessage \<Rightarrow> sequence_state" where
  "exampleState n incoming =
     \<lparr>store = (\<lambda>a. if a = n then incoming else exampleMessage (int a + 1) (int a) 0),
      nextAddr = Suc n, messagesSinceMSNChange = [0..<n],
      submitted = [], isLoaded = True, loadedDeferred = Resolved\<rparr>"

text \<open>The event of inserting the segment "X" at position 5.\<close>

definition insertX :: SequenceDeltaEvent where
  "insertX = \<lparr>deltaOperation = INSERT,
      ranges = [\<lparr>position = 5,
                 segment = \<lparr>properties = [], cachedLength = 1, toJSONObject = JStr ''X''\<rparr>,
                 propertyDeltas = []\<rparr>]\<rparr>"

text \<open>A range of a bold segment whose \<open>bold\<close> property an annotate changed.\<close>

definition boldRange :: "int \<Rightarrow> int \<Rightarrow> ISequenceDeltaRange" where
  "boldRange pos len =
     \<lparr>position = pos,
      segment = \<lparr>properties = [(''bold'', JBool True)], cachedLength = len,
                 toJSONObject = JStr ''text''\<rparr>,
      propertyDeltas = [(''bold'', JNull)]\<rparr>"

definition annotateEvent :: "ISequenceDeltaRange list \<Rightarrow> SequenceDeltaEvent" where
  "annotateEvent rs = \<lparr>deltaOperation = ANNOTATE, ranges = rs\<rparr>"

text \<open>A range of a segment without properties, and a remove event over given ranges.\<close>

definition plainRange :: "int \<Rightarrow> int \<Rightarrow> ISequenceDeltaRange" where
  "plainRange pos len =
     \<lparr>position = pos,
      segment = \<lparr>properties = [], cachedLength = len, toJSONObject = JStr ''text''\<rparr>,
      propertyDeltas = []\<rparr>"

definition removeEvent :: "ISequenceDeltaRange list \<Rightarrow> SequenceDeltaEvent" where
  "removeEvent rs = \<lparr>deltaOperation = REMOVE, ranges = rs\<rparr>"

section \<open>Properties of createOpsFromDelta\<close>

lemma matchProperties_iff: "matchProperties a b \<longleftrightarrow> map_of a = map_of b"
proof
  assume m: "matchProperties a b"
  show "map_of a = map_of b"
  proof
    fix key
    show "map_of a key = map_of b key"
    proof (cases "key \<in> fst ` set a \<union> fst ` set b")
      case True
      with m show ?thesis
        by (auto simp: matchProperties_def list_all_iff)
    next
      case False
      then have "map_of a key = None" "map_of b key = None"
        by (simp_all add: map_of_eq_None_iff)
      then show ?thesis by simp
    qed
  qed
next
  assume "map_of a = map_of b"
  then show "matchProperties a b"
    by (simp add: matchProperties_def list_all_iff)
qed

lemma matchProperties_refl: "matchProperties a a"
  by (simp add: matchProperties_iff)

lemma matchProperties_trans:
  "matchProperties a b \<Longrightarrow> matchProperties b c \<Longrightarrow> matchProperties a c"
  by (simp add: matchProperties_iff)

lemma createOpsFromDelta_annotate_snoc:
  "deltaOperation ev = ANNOTATE \<Longrightarrow>
   createOpsFromDelta (ev\<lparr>ranges := rs @ [r]\<rparr>) =
     annotateStep (createOpsFromDelta (ev\<lparr>ranges := rs\<rparr>)) r"
  by (simp add: createOpsFromDelta_def)

text \<open>After a step of the ANNOTATE case the last op ends where the range ends.\<close>

lemma annotateStep_last:
  "\<exists>p1 props cop.
     annotateStep ops r = butlast (annotateStep ops r) @
       [AnnotateOp p1 (position r + cachedLength (segment r)) props cop] \<and>
     matchProperties props (resultingProps r)"
proof (cases "lastOp ops")
  case None
  then show ?thesis
    by (auto simp: annotateStep_def Let_def createAnnotateRangeOp_def matchProperties_refl)
next
  case (Some lop)
  show ?thesis
  proof (cases lop)
    case (AnnotateOp p1 p2 lastProps cop)
    show ?thesis
    proof (cases "p2 = position r \<and> matchProperties lastProps (resultingProps r)")
      case True
      with Some AnnotateOp show ?thesis
        by (auto simp: annotateStep_def Let_def)
    next
      case False
      with Some AnnotateOp show ?thesis
        by (auto simp: annotateStep_def Let_def createAnnotateRangeOp_def matchProperties_refl)
    qed
  qed (use Some in \<open>auto simp: annotateStep_def Let_def createAnnotateRangeOp_def matchProperties_refl\<close>)
qed

lemma annotateStep_merge:
  assumes "ops = front @ [AnnotateOp p1 p2 props cop]" and "p2 = position r"
    and "matchProperties props (resultingProps r)"
  shows "annotateStep ops r = front @ [AnnotateOp p1 (p2 + cachedLength (segment r)) props cop]"
  using assms by (simp add: annotateStep_def Let_def lastOp_def)

lemma annotate_contiguous_coalesce:
  assumes "deltaOperation ev = ANNOTATE"
    and "position r2 = position r1 + cachedLength (segment r1)"
    and "matchProperties (resultingProps r1) (resultingProps r2)"
  shows "\<exists>front p1 props cop.
           createOpsFromDelta (ev\<lparr>ranges := rs @ [r1]\<rparr>) =
             front @ [AnnotateOp p1 (position r2) props cop] \<and>
           createOpsFromDelta (ev\<lparr>ranges := rs @ [r1, r2]\<rparr>) =
             front @ [AnnotateOp p1 (position r2 + cachedLength (segment r2)) props cop] \<and>
           matchProperties props (resultingProps r1)"
proof -
  let ?before = "createOpsFromDelta (ev\<lparr>ranges := rs\<rparr>)"
  obtain p1 props cop where
    l: "annotateStep ?before r1 = butlast (annotateStep ?before r1) @
          [AnnotateOp p1 (position r1 + cachedLength (segment r1)) props cop]"
    and m: "matchProperties props (resultingProps r1)"
    using annotateStep_last by blast
  have one: "createOpsFromDelta (ev\<lparr>ranges := rs @ [r1]\<rparr>) = annotateStep ?before r1"
    using assms(1) by (rule createOpsFromDelta_annotate_snoc)
  have "createOpsFromDelta (ev\<lparr>ranges := (rs @ [r1]) @ [r2]\<rparr>) =
        annotateStep (createOpsFromDelta (ev\<lparr>ranges := rs @ [r1]\<rparr>)) r2"
    using assms(1) by (rule createOpsFromDelta_annotate_snoc)
  then have two: "createOpsFromDelta (ev\<lparr>ranges := rs @ [r1, r2]\<rparr>) =
        annotateStep (annotateStep ?before r1) r2"
    using one by simp
  have m2: "matchProperties props (resultingProps r2)"
    using m assms(3) by (rule matchProperties_trans)
  have "annotateStep (annotateStep ?before r1) r2 = butlast (annotateStep ?before r1) @
      [AnnotateOp p1 (position r1 + cachedLength (segment r1) + cachedLength (segment r2)) props cop]"
    using l _ m2 by (rule annotateStep_merge) (simp add: assms(2))
  with l one two m show ?thesis
    using assms(2) by metis
qed

lemma annotate_two_ranges:
  assumes "deltaOperation ev = ANNOTATE"
    and "position r2 = position r1 + cachedLength (segment r1)"
    and "matchProperties (resultingProps r1) (resultingProps r2)"
  shows "createOpsFromDelta (ev\<lparr>ranges := [r1, r2]\<rparr>) =
           [AnnotateOp (position r1)
              (position r1 + cachedLength (segment r1) + cachedLength (segment r2))
              (resultingProps r1) None]"
  using assms
  by (simp add: createOpsFromDelta_def annotateStep_def Let_def lastOp_def createAnnotateRangeOp_def)

text \<open>The loop of \<open>createOpsFromDelta\<close> against the re-expression by runs.\<close>

lemma foldl_insertStep:
  "foldl insertStep acc rs =
     acc @ map (\<lambda>r. InsertOp (position r) (toJSONObject (segment r))) rs"
  by (induction rs arbitrary: acc) (simp_all add: insertStep_def createInsertOp_def)

lemma removeStep_open:
  "removeStep (front @ [RemoveOp p1 p2]) r =
     (if position r = p1
      then front @ [RemoveOp p1 (p2 + cachedLength (segment r))]
      else (front @ [RemoveOp p1 p2]) @
           [RemoveOp (position r) (position r + cachedLength (segment r))])"
  by (auto simp: removeStep_def Let_def lastOp_def createRemoveRangeOp_def)

lemma foldl_removeStep:
  "foldl removeStep (front @ [RemoveOp p1 p2]) rs = front @ coalescedRemovesFrom p1 p2 rs"
proof (induction rs arbitrary: front p1 p2)
  case Nil
  show ?case by simp
next
  case (Cons r rs)
  show ?case
  proof (cases "position r = p1")
    case True
    then show ?thesis
      using Cons.IH [of front p1 "p2 + cachedLength (segment r)"]
      by (simp add: removeStep_open)
  next
    case False
    then show ?thesis
      using Cons.IH [of "front @ [RemoveOp p1 p2]" "position r"
                        "position r + cachedLength (segment r)"]
      by (simp add: removeStep_open)
  qed
qed

lemma annotateStep_open:
  "annotateStep (front @ [AnnotateOp p1 p2 props None]) r =
     (if position r = p2 \<and> matchProperties props (resultingProps r)
      then front @ [AnnotateOp p1 (p2 + cachedLength (segment r)) props None]
      else (front @ [AnnotateOp p1 p2 props None]) @
           [AnnotateOp (position r) (position r + cachedLength (segment r))
              (resultingProps r) None])"
  by (auto simp: annotateStep_def Let_def lastOp_def createAnnotateRangeOp_def)

lemma foldl_annotateStep:
  "foldl annotateStep (front @ [AnnotateOp p1 p2 props None]) rs =
     front @ coalescedAnnotatesFrom p1 p2 props rs"
proof (induction rs arbitrary: front p1 p2 props)
  case Nil
  show ?case by simp
next
  case (Cons r rs)
  show ?case
  proof (cases "position r = p2 \<and> matchProperties props (resultingProps r)")
    case True
    then show ?thesis
      using Cons.IH [of front p1 "p2 + cachedLength (segment r)" props]
      by (simp add: annotateStep_open)
  next
    case False
    have s: "annotateStep (front @ [AnnotateOp p1 p2 props None]) r =
        (front @ [AnnotateOp p1 p2 props None]) @
        [AnnotateOp (position r) (position r + cachedLength (segment r)) (resultingProps r) None]"
      unfolding annotateStep_open using False by (rule if_not_P)
    have c: "coalescedAnnotatesFrom p1 p2 props (r # rs) =
        AnnotateOp p1 p2 props None #
        coalescedAnnotatesFrom (position r) (position r + cachedLength (segment r))
          (resultingProps r) rs"
      unfolding coalescedAnnotatesFrom.simps using False by (rule if_not_P)
    show ?thesis
      unfolding foldl_Cons s c
      using Cons.IH [of "front @ [AnnotateOp p1 p2 props None]" "position r"
                        "position r + cachedLength (segment r)" "resultingProps r"]
      by simp
  qed
qed

lemma foldl_unchanged: "foldl (\<lambda>ops r. ops) acc rs = acc"
  by (induction rs) simp_all

lemma createOpsFromDelta_reexpressed: "createOpsFromDelta ev = reexpressedSpec ev"
proof (cases "deltaOperation ev")
  case INSERT
  then show ?thesis
    using foldl_insertStep [of "[]" "ranges ev"]
    by (simp add: createOpsFromDelta_def reexpressedSpec_def)
next
  case REMOVE
  show ?thesis
  proof (cases "ranges ev")
    case Nil
    with REMOVE show ?thesis
      by (simp add: createOpsFromDelta_def reexpressedSpec_def)
  next
    case (Cons r rs)
    have "removeStep [] r = [] @ [RemoveOp (position r) (position r + cachedLength (segment r))]"
      by (simp add: removeStep_def Let_def lastOp_def createRemoveRangeOp_def)
    then have "foldl removeStep [] (r # rs) =
        coalescedRemovesFrom (position r) (position r + cachedLength (segment r)) rs"
      using foldl_removeStep [of "[]" "position r" "position r + cachedLength (segment r)" rs]
      by simp
    with REMOVE Cons show ?thesis
      by (simp add: createOpsFromDelta_def reexpressedSpec_def)
  qed
next
  case ANNOTATE
  show ?thesis
  proof (cases "ranges ev")
    case Nil
    with ANNOTATE show ?thesis
      by (simp add: createOpsFromDelta_def reexpressedSpec_def)
  next
    case (Cons r rs)
    have "annotateStep [] r =
        [] @ [AnnotateOp (position r) (position r + cachedLength (segment r)) (resultingProps r) None]"
      by (simp add: annotateStep_def Let_def lastOp_def createAnnotateRangeOp_def)
    then have "foldl annotateStep [] (r # rs) =
        coalescedAnnotatesFrom (position r) (position r + cachedLength (segment r))
          (resultingProps r) rs"
      using foldl_annotateStep [of "[]" "position r" "position r + cachedLength (segment r)"
              "resultingProps r" rs]
      by simp
    with ANNOTATE Cons show ?thesis
      by (simp add: createOpsFromDelta_def reexpressedSpec_def)
  qed
next
  case GROUP
  then show ?thesis
    by (simp add: createOpsFromDelta_def reexpressedSpec_def foldl_unchanged)
qed

lemma coalescedRemovesFrom_same:
  "\<forall>r \<in> set rs. position r = p \<Longrightarrow>
   coalescedRemovesFrom p p2 rs =
     [RemoveOp p (p2 + sum_list (map (\<lambda>r. cachedLength (segment r)) rs))]"
  by (induction rs arbitrary: p2) (simp_all add: add.assoc)

lemma remove_same_position:
  assumes "deltaOperation ev = REMOVE" and "ranges ev \<noteq> []"
    and "\<forall>r \<in> set (ranges ev). position r = p"
  shows "createOpsFromDelta ev =
           [RemoveOp p (p + sum_list (map (\<lambda>r. cachedLength (segment r)) (ranges ev)))]"
proof -
  obtain r rs where c: "ranges ev = r # rs"
    using assms(2) by (cases "ranges ev") auto
  with assms(3) have "position r = p" "\<forall>x \<in> set rs. position x = p"
    by simp_all
  with assms(1) c show ?thesis
    by (simp add: createOpsFromDelta_reexpressed reexpressedSpec_def coalescedRemovesFrom_same
          add.assoc)
qed

lemma remove_two_positions:
  assumes "deltaOperation ev = REMOVE" and "position r2 \<noteq> position r1"
  shows "createOpsFromDelta (ev\<lparr>ranges := [r1, r2]\<rparr>) =
           [RemoveOp (position r1) (position r1 + cachedLength (segment r1)),
            RemoveOp (position r2) (position r2 + cachedLength (segment r2))]"
  using assms by (simp add: createOpsFromDelta_reexpressed reexpressedSpec_def)

section \<open>Properties of the compaction scan\<close>

lemma scanIndex_takeWhile:
  "index \<le> length buf \<Longrightarrow>
   scanIndex s buf minSeq index =
     index + length (takeWhile (\<lambda>a. sequenceNumber (s a) \<le> minSeq) (drop index buf))"
proof (induction s buf minSeq index rule: scanIndex.induct)
  case (1 s buf minSeq index)
  show ?case
  proof (cases "index < length buf")
    case True
    then have d: "drop index buf = buf ! index # drop (Suc index) buf"
      by (simp add: Cons_nth_drop_Suc)
    show ?thesis
    proof (cases "sequenceNumber (s (buf ! index)) > minSeq")
      case True
      with \<open>index < length buf\<close> d show ?thesis
        by (subst scanIndex.simps) simp
    next
      case False
      with \<open>index < length buf\<close> have "scanIndex s buf minSeq (Suc index) =
          Suc index + length (takeWhile (\<lambda>a. sequenceNumber (s a) \<le> minSeq) (drop (Suc index) buf))"
        using "1.IH" by simp
      with False \<open>index < length buf\<close> d show ?thesis
        by (subst scanIndex.simps) simp
    qed
  next
    case False
    with "1.prems" show ?thesis
      by (subst scanIndex.simps) simp
  qed
qed

lemma scanIndex_0:
  "scanIndex s buf minSeq 0 = length (takeWhile (\<lambda>a. sequenceNumber (s a) \<le> minSeq) buf)"
  using scanIndex_takeWhile [of 0 buf s minSeq] by simp

lemma scanIndex_le: "scanIndex s buf k 0 \<le> length buf"
  by (simp add: scanIndex_0 length_takeWhile_le)

lemma scanIndex_before:
  "j < scanIndex s buf k 0 \<Longrightarrow> sequenceNumber (s (buf ! j)) \<le> k"
  unfolding scanIndex_0
  by (metis nth_mem set_takeWhileD takeWhile_nth)

lemma scanIndex_at:
  "scanIndex s buf k 0 < length buf \<Longrightarrow> k < sequenceNumber (s (buf ! scanIndex s buf k 0))"
  unfolding scanIndex_0
  using nth_length_takeWhile [of "\<lambda>a. sequenceNumber (s a) \<le> k" buf] by simp

lemma pMSNC_drop:
  "messagesSinceMSNChange (processMinSequenceNumberChanged st k) =
     drop (scanIndex (store st) (messagesSinceMSNChange st) k 0) (messagesSinceMSNChange st)"
  by (simp add: processMinSequenceNumberChanged_def Let_def)

lemma pMSNC_buffer:
  "messagesSinceMSNChange (processMinSequenceNumberChanged st minSeq) =
     dropWhile (\<lambda>a. sequenceNumber (store st a) \<le> minSeq) (messagesSinceMSNChange st)"
  by (simp add: pMSNC_drop scanIndex_0 dropWhile_eq_drop)

lemma pMSNC_frame:
  "store (processMinSequenceNumberChanged st minSeq) = store st"
  "nextAddr (processMinSequenceNumberChanged st minSeq) = nextAddr st"
  "submitted (processMinSequenceNumberChanged st minSeq) = submitted st"
  "isLoaded (processMinSequenceNumberChanged st minSeq) = isLoaded st"
  "loadedDeferred (processMinSequenceNumberChanged st minSeq) = loadedDeferred st"
  by (simp_all add: processMinSequenceNumberChanged_def Let_def)

lemma pMSNC_eq:
  "processMinSequenceNumberChanged st minSeq =
     st\<lparr>messagesSinceMSNChange :=
          dropWhile (\<lambda>a. sequenceNumber (store st a) \<le> minSeq) (messagesSinceMSNChange st)\<rparr>"
proof (cases "scanIndex (store st) (messagesSinceMSNChange st) minSeq 0 = 0")
  case True
  then have "takeWhile (\<lambda>a. sequenceNumber (store st a) \<le> minSeq) (messagesSinceMSNChange st) = []"
    by (simp add: scanIndex_0)
  then have "dropWhile (\<lambda>a. sequenceNumber (store st a) \<le> minSeq) (messagesSinceMSNChange st)
      = messagesSinceMSNChange st"
    by (metis append_Nil takeWhile_dropWhile_id)
  with True show ?thesis
    by (simp add: processMinSequenceNumberChanged_def)
next
  case False
  then show ?thesis
    by (simp add: processMinSequenceNumberChanged_def Let_def scanIndex_0 dropWhile_eq_drop)
qed

lemma compactionSpec_subset: "set (compactionSpec s k buf) \<subseteq> set buf"
  by (auto simp: compactionSpec_def dest: set_dropWhileD)


lemma dropWhile_sorted_above:
  "sorted_wrt (<) (map f xs) \<Longrightarrow> \<forall>x \<in> set (dropWhile (\<lambda>a. f a \<le> k) xs). (k::int) < f x"
proof (induction xs)
  case Nil
  then show ?case by simp
next
  case (Cons x xs)
  show ?case
  proof (cases "f x \<le> k")
    case True
    with Cons show ?thesis by simp
  next
    case False
    with Cons.prems show ?thesis by fastforce
  qed
qed

section \<open>processMergeTreeMsg in closed form\<close>

lemma single_or_group:
  "(if length ops \<noteq> 1 then createGroupOp ops else ops ! 0) =
   (case ops of [op] \<Rightarrow> op | _ \<Rightarrow> createGroupOp ops)"
  by (cases ops) (auto split: list.splits)

lemma pMTM_direct:
  assumes "referenceSequenceNumber (store st message) = sequenceNumber (store st message) - 1"
  shows "processMergeTreeMsg st message (Emits events) =
     (None,
      st\<lparr>messagesSinceMSNChange :=
           compactionSpec (store st) (minimumSequenceNumber (store st message))
             (messagesSinceMSNChange st @ [message])\<rparr>)"
  using assms
  by (simp add: processMergeTreeMsg_def Let_def compactionSpec_def pMSNC_eq)

lemma pMTM_direct_throws:
  assumes "referenceSequenceNumber (store st message) = sequenceNumber (store st message) - 1"
  shows "processMergeTreeMsg st message (Throws e) = (Some e, st)"
  using assms by (simp add: processMergeTreeMsg_def Let_def)

lemma pMTM_transform:
  assumes "referenceSequenceNumber (store st message) \<noteq> sequenceNumber (store st message) - 1"
    and "message < nextAddr st"
  shows "processMergeTreeMsg st message (Emits events) =
     (None,
      st\<lparr>store := (store st)(nextAddr st :=
             transformed (store st message) (concat (map createOpsFromDelta events))),
         nextAddr := Suc (nextAddr st),
         messagesSinceMSNChange :=
           compactionSpec
             ((store st)(nextAddr st :=
                transformed (store st message) (concat (map createOpsFromDelta events))))
             (minimumSequenceNumber (store st message))
             (messagesSinceMSNChange st @ [nextAddr st])\<rparr>)"
proof -
  have ne: "message \<noteq> nextAddr st" using assms(2) by simp
  show ?thesis
    using assms(1) ne
    by (auto simp add: processMergeTreeMsg_def Let_def cloneDeep_def pMSNC_eq
          transformed_def compactionSpec_def)
qed

lemma pMTM_transform_throws:
  assumes "referenceSequenceNumber (store st message) \<noteq> sequenceNumber (store st message) - 1"
  shows "processMergeTreeMsg st message (Throws e) =
     (Some e,
      st\<lparr>store := (store st)(nextAddr st := (store st message)
             \<lparr>referenceSequenceNumber := sequenceNumber (store st message) - 1\<rparr>),
         nextAddr := Suc (nextAddr st)\<rparr>)"
  using assms
  by (simp add: processMergeTreeMsg_def Let_def cloneDeep_def)

lemma pMTM_buffer:
  assumes "message < nextAddr st"
  shows "messagesSinceMSNChange (snd (processMergeTreeMsg st message (Emits events))) =
     compactionSpec (store (snd (processMergeTreeMsg st message (Emits events))))
       (minimumSequenceNumber (store st message))
       (messagesSinceMSNChange st @ [stashOf st message])"
proof (cases "referenceSequenceNumber (store st message) = sequenceNumber (store st message) - 1")
  case True
  then show ?thesis
    by (simp add: pMTM_direct stashOf_def)
next
  case False
  then show ?thesis
    using assms by (simp add: pMTM_transform stashOf_def)
qed

section \<open>The watermark invariant\<close>

lemma pMSNC_above:
  "strictlyIncreasing st \<Longrightarrow> bufferAbove minSeq (processMinSequenceNumberChanged st minSeq)"
  unfolding strictlyIncreasing_def bufferAbove_def pMSNC_buffer pMSNC_frame
  by (rule dropWhile_sorted_above)

lemma pMSNC_preserves:
  "bufferAbove w st \<Longrightarrow> bufferAbove w (processMinSequenceNumberChanged st minSeq)"
  unfolding bufferAbove_def pMSNC_buffer pMSNC_frame
  by (blast dest: set_dropWhileD)

lemma pMTM_preserves:
  assumes "message < nextAddr st" "allocated st" "bufferAbove w st"
    and "w < sequenceNumber (store st message)"
  shows "bufferAbove w (snd (processMergeTreeMsg st message applied))"
proof (cases "referenceSequenceNumber (store st message) = sequenceNumber (store st message) - 1")
  case True
  show ?thesis
  proof (cases applied)
    case (Throws e)
    with True assms(3) show ?thesis by (simp add: pMTM_direct_throws)
  next
    case (Emits events)
    with True assms(3,4) show ?thesis
      using compactionSpec_subset [of "store st" "minimumSequenceNumber (store st message)"
              "messagesSinceMSNChange st @ [message]"]
      by (auto simp: pMTM_direct bufferAbove_def)
  qed
next
  case False
  have old: "a \<in> set (messagesSinceMSNChange st) \<Longrightarrow> a \<noteq> nextAddr st" for a
    using assms(2) by (auto simp: allocated_def)
  show ?thesis
  proof (cases applied)
    case (Throws e)
    with False assms(3) old show ?thesis
      by (auto simp: pMTM_transform_throws bufferAbove_def)
  next
    case (Emits events)
    let ?s = "(store st)(nextAddr st :=
                transformed (store st message) (concat (map createOpsFromDelta events)))"
    have "set (compactionSpec ?s (minimumSequenceNumber (store st message))
                 (messagesSinceMSNChange st @ [nextAddr st]))
            \<subseteq> set (messagesSinceMSNChange st @ [nextAddr st])"
      by (rule compactionSpec_subset)
    with Emits False assms old show ?thesis
      by (auto simp: pMTM_transform bufferAbove_def transformed_def)
  qed
qed

lemma snapshot_store_seq:
  "sequenceNumber (foldl (\<lambda>s a. s(a := (s a)\<lparr>minimumSequenceNumber := n\<rparr>)) s as b) =
   sequenceNumber (s b)"
  by (induction as arbitrary: s) auto

lemma snapshot_preserves:
  "bufferAbove w st \<Longrightarrow> bufferAbove w (snd (snapshotMergeTree st deltaManager windowMinSeq))"
  using pMSNC_preserves [of w st]
  by (auto simp: snapshotMergeTree_def Let_def bufferAbove_def snapshot_store_seq
           split: option.splits)

lemma snapshot_above:
  "isLoaded st \<Longrightarrow> strictlyIncreasing st \<Longrightarrow>
   bufferAbove n (snd (snapshotMergeTree st (Some n) windowMinSeq))"
  using pMSNC_above [of st n]
  by (auto simp: snapshotMergeTree_def Let_def bufferAbove_def snapshot_store_seq
           split: option.splits)

section \<open>Properties of the pause flags\<close>

lemma resumes_grow_flags:
  "resumes p < resumes (call p c) \<Longrightarrow> \<not> systemPaused (call p c) \<and> \<not> localPaused (call p c)"
  by (cases c)
     (auto simp: resumes_def systemPause_def pause_def systemResume_def resume_def
                 updateResume_def split: if_splits)

section \<open>The claims\<close>

text \<open>
  A message that needs transformation whose application emits one remove event with two
  ranges at position 1, of lengths 1 and 2. Two deltas are captured, and the contents
  stored in the history buffer are the single remove op from 1 to 4, not a group op.
\<close>

theorem processMergeTreeMsg_captured_deltas_counterexample:
  "length (ranges (removeEvent [plainRange 1 1, plainRange 1 2])) = 2 \<and>
   messagesSinceMSNChange
     (snd (processMergeTreeMsg (exampleState 2 (exampleMessage 3 0 0)) 2
        (Emits [removeEvent [plainRange 1 1, plainRange 1 2]]))) = [0, 1, 3] \<and>
   contents (store
     (snd (processMergeTreeMsg (exampleState 2 (exampleMessage 3 0 0)) 2
        (Emits [removeEvent [plainRange 1 1, plainRange 1 2]]))) 3) = RemoveOp 1 4 \<and>
   contents (store
     (snd (processMergeTreeMsg (exampleState 2 (exampleMessage 3 0 0)) 2
        (Emits [removeEvent [plainRange 1 1, plainRange 1 2]]))) 3)
     \<noteq> createGroupOp [RemoveOp 1 2, RemoveOp 1 3]"
proof -
  have l: "length (ranges (removeEvent [plainRange 1 1, plainRange 1 2])) = 2"
    by (simp add: removeEvent_def)
  have b: "messagesSinceMSNChange
     (snd (processMergeTreeMsg (exampleState 2 (exampleMessage 3 0 0)) 2
        (Emits [removeEvent [plainRange 1 1, plainRange 1 2]]))) = [0, 1, 3]"
    by code_simp
  have c: "contents (store
     (snd (processMergeTreeMsg (exampleState 2 (exampleMessage 3 0 0)) 2
        (Emits [removeEvent [plainRange 1 1, plainRange 1 2]]))) 3) = RemoveOp 1 4"
    by code_simp
  from l b c show ?thesis
    by (simp add: createGroupOp_def)
qed

text \<open>
  Claim C1, amended. A sequenced message processed by \<open>processMergeTreeMsg\<close> whose
  \<open>referenceSequenceNumber\<close> is its \<open>sequenceNumber\<close> minus 1 is appended to the history
  buffer as it is: the reference pushed is the message itself and no object changes.
  Otherwise the entry appended is a new object, a copy of the message whose
  \<open>referenceSequenceNumber\<close> is \<open>sequenceNumber - 1\<close> and whose contents are the ops into
  which \<open>createOpsFromDelta\<close> re-expresses the captured delta events, one event after the
  other: that op when the re-expression gives exactly one op, a group op of them otherwise.
  The re-expression of an event is the one by runs: an insert event gives one insert op
  per range; a remove event gives one remove op per run of consecutive ranges at the run's
  start position, spanning their total length, so that ranges all at one position give
  one op and two ranges at different positions give two; an annotate event gives one
  annotate op per run of contiguous ranges with matching resulting properties; any other
  event gives no op. The buffer after the call is the buffer with the entry appended,
  compacted when compaction is due.
\<close>

theorem processMergeTreeMsg_history_entry:
  "(referenceSequenceNumber (store st message) = sequenceNumber (store st message) - 1 \<longrightarrow>
      processMergeTreeMsg st message (Emits events) =
        (None, st\<lparr>messagesSinceMSNChange :=
                    compactionSpec (store st) (minimumSequenceNumber (store st message))
                      (messagesSinceMSNChange st @ [message])\<rparr>)) \<and>
   (message < nextAddr st \<and>
    referenceSequenceNumber (store st message) \<noteq> sequenceNumber (store st message) - 1 \<longrightarrow>
      fst (processMergeTreeMsg st message (Emits events)) = None \<and>
      messagesSinceMSNChange (snd (processMergeTreeMsg st message (Emits events))) =
        compactionSpec (store (snd (processMergeTreeMsg st message (Emits events))))
          (minimumSequenceNumber (store st message))
          (messagesSinceMSNChange st @ [nextAddr st]) \<and>
      store (snd (processMergeTreeMsg st message (Emits events))) (nextAddr st) =
        (store st message)
          \<lparr>referenceSequenceNumber := sequenceNumber (store st message) - 1,
           contents := (case concat (map createOpsFromDelta events) of
                          [op] \<Rightarrow> op
                        | _ \<Rightarrow> createGroupOp (concat (map createOpsFromDelta events)))\<rparr>) \<and>
   createOpsFromDelta ev = reexpressedSpec ev \<and>
   (deltaOperation ev = INSERT \<longrightarrow>
      createOpsFromDelta ev =
        map (\<lambda>r. InsertOp (position r) (toJSONObject (segment r))) (ranges ev)) \<and>
   (deltaOperation ev = REMOVE \<and> ranges ev \<noteq> [] \<and> (\<forall>r \<in> set (ranges ev). position r = p) \<longrightarrow>
      createOpsFromDelta ev =
        [RemoveOp p (p + sum_list (map (\<lambda>r. cachedLength (segment r)) (ranges ev)))]) \<and>
   (deltaOperation ev = REMOVE \<and> position r2 \<noteq> position r1 \<longrightarrow>
      createOpsFromDelta (ev\<lparr>ranges := [r1, r2]\<rparr>) =
        [RemoveOp (position r1) (position r1 + cachedLength (segment r1)),
         RemoveOp (position r2) (position r2 + cachedLength (segment r2))]) \<and>
   (deltaOperation ev = ANNOTATE \<and>
    position r2 = position r1 + cachedLength (segment r1) \<and>
    matchProperties (resultingProps r1) (resultingProps r2) \<longrightarrow>
      createOpsFromDelta (ev\<lparr>ranges := [r1, r2]\<rparr>) =
        [AnnotateOp (position r1)
           (position r1 + cachedLength (segment r1) + cachedLength (segment r2))
           (resultingProps r1) None]) \<and>
   (deltaOperation ev = ANNOTATE \<and>
    position r2 \<noteq> position r1 + cachedLength (segment r1) \<longrightarrow>
      createOpsFromDelta (ev\<lparr>ranges := [r1, r2]\<rparr>) =
        [AnnotateOp (position r1) (position r1 + cachedLength (segment r1))
           (resultingProps r1) None,
         AnnotateOp (position r2) (position r2 + cachedLength (segment r2))
           (resultingProps r2) None]) \<and>
   (deltaOperation ev = GROUP \<longrightarrow> createOpsFromDelta ev = [])"
proof (intro conjI impI)
  assume "referenceSequenceNumber (store st message) = sequenceNumber (store st message) - 1"
  then show "processMergeTreeMsg st message (Emits events) =
        (None, st\<lparr>messagesSinceMSNChange :=
                    compactionSpec (store st) (minimumSequenceNumber (store st message))
                      (messagesSinceMSNChange st @ [message])\<rparr>)"
    by (rule pMTM_direct)
next
  assume a: "message < nextAddr st \<and>
    referenceSequenceNumber (store st message) \<noteq> sequenceNumber (store st message) - 1"
  then have eq: "processMergeTreeMsg st message (Emits events) =
     (None,
      st\<lparr>store := (store st)(nextAddr st :=
             transformed (store st message) (concat (map createOpsFromDelta events))),
         nextAddr := Suc (nextAddr st),
         messagesSinceMSNChange :=
           compactionSpec
             ((store st)(nextAddr st :=
                transformed (store st message) (concat (map createOpsFromDelta events))))
             (minimumSequenceNumber (store st message))
             (messagesSinceMSNChange st @ [nextAddr st])\<rparr>)"
    using pMTM_transform by blast
  show "fst (processMergeTreeMsg st message (Emits events)) = None"
    by (simp add: eq)
  show "messagesSinceMSNChange (snd (processMergeTreeMsg st message (Emits events))) =
        compactionSpec (store (snd (processMergeTreeMsg st message (Emits events))))
          (minimumSequenceNumber (store st message))
          (messagesSinceMSNChange st @ [nextAddr st])"
    by (simp add: eq)
  have "store (snd (processMergeTreeMsg st message (Emits events))) (nextAddr st) =
        transformed (store st message) (concat (map createOpsFromDelta events))"
    by (simp add: eq)
  then show "store (snd (processMergeTreeMsg st message (Emits events))) (nextAddr st) =
        (store st message)
          \<lparr>referenceSequenceNumber := sequenceNumber (store st message) - 1,
           contents := (case concat (map createOpsFromDelta events) of
                          [op] \<Rightarrow> op
                        | _ \<Rightarrow> createGroupOp (concat (map createOpsFromDelta events)))\<rparr>"
    unfolding transformed_def single_or_group .
next
  show "createOpsFromDelta ev = reexpressedSpec ev"
    by (rule createOpsFromDelta_reexpressed)
next
  assume "deltaOperation ev = INSERT"
  then show "createOpsFromDelta ev =
        map (\<lambda>r. InsertOp (position r) (toJSONObject (segment r))) (ranges ev)"
    by (simp add: createOpsFromDelta_reexpressed reexpressedSpec_def)
next
  assume "deltaOperation ev = REMOVE \<and> ranges ev \<noteq> [] \<and> (\<forall>r \<in> set (ranges ev). position r = p)"
  then show "createOpsFromDelta ev =
        [RemoveOp p (p + sum_list (map (\<lambda>r. cachedLength (segment r)) (ranges ev)))]"
    using remove_same_position by blast
next
  assume "deltaOperation ev = REMOVE \<and> position r2 \<noteq> position r1"
  then show "createOpsFromDelta (ev\<lparr>ranges := [r1, r2]\<rparr>) =
        [RemoveOp (position r1) (position r1 + cachedLength (segment r1)),
         RemoveOp (position r2) (position r2 + cachedLength (segment r2))]"
    using remove_two_positions by blast
next
  assume "deltaOperation ev = ANNOTATE \<and>
    position r2 = position r1 + cachedLength (segment r1) \<and>
    matchProperties (resultingProps r1) (resultingProps r2)"
  then show "createOpsFromDelta (ev\<lparr>ranges := [r1, r2]\<rparr>) =
        [AnnotateOp (position r1)
           (position r1 + cachedLength (segment r1) + cachedLength (segment r2))
           (resultingProps r1) None]"
    using annotate_two_ranges by blast
next
  assume "deltaOperation ev = ANNOTATE \<and>
    position r2 \<noteq> position r1 + cachedLength (segment r1)"
  then show "createOpsFromDelta (ev\<lparr>ranges := [r1, r2]\<rparr>) =
        [AnnotateOp (position r1) (position r1 + cachedLength (segment r1))
           (resultingProps r1) None,
         AnnotateOp (position r2) (position r2 + cachedLength (segment r2))
           (resultingProps r2) None]"
    by (simp add: createOpsFromDelta_reexpressed reexpressedSpec_def)
next
  assume "deltaOperation ev = GROUP"
  then show "createOpsFromDelta ev = []"
    by (simp add: createOpsFromDelta_reexpressed reexpressedSpec_def)
qed

text \<open>
  After two buffered messages: a direct message (sequence number 3, reference 2); a
  message that needs transformation (sequence number 3, reference 0) whose application
  removes two ranges at position 1, stored with the one remove op from 1 to 4; and the
  same message when its application inserts "X" at position 5 and then removes the two
  ranges, stored with the group op of the insert and the remove. The events alone: the
  insert, removes at one and at two positions, annotates of contiguous and of separate bold
  ranges, and an event of another kind.
\<close>

theorem processMergeTreeMsg_history_entry_witness:
  "referenceSequenceNumber (store (exampleState 2 (exampleMessage 3 2 0)) 2)
     = sequenceNumber (store (exampleState 2 (exampleMessage 3 2 0)) 2) - 1 \<and>
   messagesSinceMSNChange
     (snd (processMergeTreeMsg (exampleState 2 (exampleMessage 3 2 0)) 2 (Emits []))) = [0, 1, 2] \<and>
   store (snd (processMergeTreeMsg (exampleState 2 (exampleMessage 3 2 0)) 2 (Emits []))) 2
     = exampleMessage 3 2 0 \<and>
   2 < nextAddr (exampleState 2 (exampleMessage 3 0 0)) \<and>
   referenceSequenceNumber (store (exampleState 2 (exampleMessage 3 0 0)) 2)
     \<noteq> sequenceNumber (store (exampleState 2 (exampleMessage 3 0 0)) 2) - 1 \<and>
   messagesSinceMSNChange
     (snd (processMergeTreeMsg (exampleState 2 (exampleMessage 3 0 0)) 2
        (Emits [removeEvent [plainRange 1 1, plainRange 1 2]]))) = [0, 1, 3] \<and>
   store (snd (processMergeTreeMsg (exampleState 2 (exampleMessage 3 0 0)) 2
        (Emits [removeEvent [plainRange 1 1, plainRange 1 2]]))) 3
     = (exampleMessage 3 2 0)\<lparr>contents := RemoveOp 1 4\<rparr> \<and>
   store (snd (processMergeTreeMsg (exampleState 2 (exampleMessage 3 0 0)) 2
        (Emits [insertX, removeEvent [plainRange 1 1, plainRange 1 2]]))) 3
     = (exampleMessage 3 2 0)\<lparr>contents := GroupOp [InsertOp 5 (JStr ''X''), RemoveOp 1 4]\<rparr> \<and>
   deltaOperation insertX = INSERT \<and>
   createOpsFromDelta insertX = [InsertOp 5 (JStr ''X'')] \<and>
   deltaOperation (removeEvent [plainRange 1 1, plainRange 1 2]) = REMOVE \<and>
   map position (ranges (removeEvent [plainRange 1 1, plainRange 1 2])) = [1, 1] \<and>
   createOpsFromDelta (removeEvent [plainRange 1 1, plainRange 1 2]) = [RemoveOp 1 4] \<and>
   position (plainRange 4 2) \<noteq> position (plainRange 1 1) \<and>
   createOpsFromDelta (removeEvent [plainRange 1 1, plainRange 4 2])
     = [RemoveOp 1 2, RemoveOp 4 6] \<and>
   deltaOperation (annotateEvent []) = ANNOTATE \<and>
   position (boldRange 3 2) = position (boldRange 0 3) + cachedLength (segment (boldRange 0 3)) \<and>
   matchProperties (resultingProps (boldRange 0 3)) (resultingProps (boldRange 3 2)) \<and>
   createOpsFromDelta (annotateEvent [boldRange 0 3, boldRange 3 2])
     = [AnnotateOp 0 5 [(''bold'', JBool True)] None] \<and>
   position (boldRange 7 2) \<noteq> position (boldRange 0 3) + cachedLength (segment (boldRange 0 3)) \<and>
   createOpsFromDelta (annotateEvent [boldRange 0 3, boldRange 7 2])
     = [AnnotateOp 0 3 [(''bold'', JBool True)] None,
        AnnotateOp 7 9 [(''bold'', JBool True)] None] \<and>
   deltaOperation \<lparr>deltaOperation = GROUP, ranges = [plainRange 1 1]\<rparr> = GROUP \<and>
   createOpsFromDelta \<lparr>deltaOperation = GROUP, ranges = [plainRange 1 1]\<rparr> = []"
proof -
  let ?direct = "exampleState 2 (exampleMessage 3 2 0)"
  let ?ex = "exampleState 2 (exampleMessage 3 0 0)"
  let ?two = "removeEvent [plainRange 1 1, plainRange 1 2]"
  have d: "referenceSequenceNumber (store ?direct 2) = sequenceNumber (store ?direct 2) - 1"
    by (simp add: exampleState_def exampleMessage_def)
  have d1: "messagesSinceMSNChange (snd (processMergeTreeMsg ?direct 2 (Emits []))) = [0, 1, 2]"
    and d2: "store (snd (processMergeTreeMsg ?direct 2 (Emits []))) 2 = exampleMessage 3 2 0"
    using processMergeTreeMsg_history_entry
            [where st = ?direct and message = 2 and events = "[]", THEN conjunct1] d
    by (simp_all add: exampleState_def exampleMessage_def compactionSpec_def upt_rec)
  have n: "2 < nextAddr ?ex"
    "referenceSequenceNumber (store ?ex 2) \<noteq> sequenceNumber (store ?ex 2) - 1"
    by (simp_all add: exampleState_def exampleMessage_def)
  have ops2: "concat (map createOpsFromDelta [?two]) = [RemoveOp 1 4]"
    by code_simp
  have ops3: "concat (map createOpsFromDelta [insertX, ?two]) = [InsertOp 5 (JStr ''X''), RemoveOp 1 4]"
    by code_simp
  have m: "store ?ex 2 = exampleMessage 3 0 0" "nextAddr ?ex = 3"
    by (simp_all add: exampleState_def)
  have t1: "messagesSinceMSNChange (snd (processMergeTreeMsg ?ex 2 (Emits [?two]))) = [0, 1, 3]"
    by code_simp
  have t2: "store (snd (processMergeTreeMsg ?ex 2 (Emits [?two]))) 3
              = (exampleMessage 3 2 0)\<lparr>contents := RemoveOp 1 4\<rparr>"
    using processMergeTreeMsg_history_entry
            [where st = ?ex and message = 2 and events = "[?two]", THEN conjunct2, THEN conjunct1] n
    unfolding ops2 m by (simp add: exampleMessage_def)
  have t3: "store (snd (processMergeTreeMsg ?ex 2 (Emits [insertX, ?two]))) 3
              = (exampleMessage 3 2 0)\<lparr>contents := GroupOp [InsertOp 5 (JStr ''X''), RemoveOp 1 4]\<rparr>"
    using processMergeTreeMsg_history_entry
            [where st = ?ex and message = 2 and events = "[insertX, ?two]",
             THEN conjunct2, THEN conjunct1] n
    unfolding ops3 m by (simp add: exampleMessage_def createGroupOp_def)
  have i: "deltaOperation insertX = INSERT"
    by (simp add: insertX_def)
  have "createOpsFromDelta insertX =
          map (\<lambda>r. InsertOp (position r) (toJSONObject (segment r))) (ranges insertX)"
    using processMergeTreeMsg_history_entry
            [where ev = insertX, THEN conjunct2, THEN conjunct2, THEN conjunct2, THEN conjunct1] i
    by (rule mp)
  then have i1: "createOpsFromDelta insertX = [InsertOp 5 (JStr ''X'')]"
    by (simp add: insertX_def)
  have r: "deltaOperation ?two = REMOVE" "ranges ?two \<noteq> []"
      "\<forall>r \<in> set (ranges ?two). position r = 1"
      "map position (ranges ?two) = [1, 1]"
    by (simp_all add: removeEvent_def plainRange_def)
  have total: "1 + sum_list (map (\<lambda>r. cachedLength (segment r)) (ranges ?two)) = 4"
    by (simp add: removeEvent_def plainRange_def)
  have "createOpsFromDelta ?two =
          [RemoveOp 1 (1 + sum_list (map (\<lambda>r. cachedLength (segment r)) (ranges ?two)))]"
    using processMergeTreeMsg_history_entry
            [where ev = ?two and p = 1, THEN conjunct2, THEN conjunct2, THEN conjunct2,
             THEN conjunct2, THEN conjunct1] r(1,2,3)
    by blast
  then have r1: "createOpsFromDelta ?two = [RemoveOp 1 4]"
    unfolding total .
  have s: "deltaOperation (removeEvent []) = REMOVE"
      "position (plainRange 4 2) \<noteq> position (plainRange 1 1)"
      "(removeEvent [])\<lparr>ranges := [plainRange 1 1, plainRange 4 2]\<rparr>
         = removeEvent [plainRange 1 1, plainRange 4 2]"
    by (simp_all add: removeEvent_def plainRange_def)
  have "createOpsFromDelta ((removeEvent [])\<lparr>ranges := [plainRange 1 1, plainRange 4 2]\<rparr>) =
        [RemoveOp (position (plainRange 1 1))
           (position (plainRange 1 1) + cachedLength (segment (plainRange 1 1))),
         RemoveOp (position (plainRange 4 2))
           (position (plainRange 4 2) + cachedLength (segment (plainRange 4 2)))]"
    using processMergeTreeMsg_history_entry
            [where ev = "removeEvent []" and ?r1.0 = "plainRange 1 1" and ?r2.0 = "plainRange 4 2",
             THEN conjunct2, THEN conjunct2, THEN conjunct2, THEN conjunct2, THEN conjunct2,
             THEN conjunct1] s(1,2)
    by blast
  then have s1: "createOpsFromDelta (removeEvent [plainRange 1 1, plainRange 4 2])
              = [RemoveOp 1 2, RemoveOp 4 6]"
    unfolding s(3) by (simp add: plainRange_def)
  have a: "deltaOperation (annotateEvent []) = ANNOTATE"
      "position (boldRange 3 2) = position (boldRange 0 3) + cachedLength (segment (boldRange 0 3))"
      "position (boldRange 7 2) \<noteq> position (boldRange 0 3) + cachedLength (segment (boldRange 0 3))"
      "(annotateEvent [])\<lparr>ranges := [boldRange 0 3, boldRange 3 2]\<rparr>
         = annotateEvent [boldRange 0 3, boldRange 3 2]"
      "(annotateEvent [])\<lparr>ranges := [boldRange 0 3, boldRange 7 2]\<rparr>
         = annotateEvent [boldRange 0 3, boldRange 7 2]"
    by (simp_all add: annotateEvent_def boldRange_def)
  have am: "matchProperties (resultingProps (boldRange 0 3)) (resultingProps (boldRange 3 2))"
    by code_simp
  have ap: "resultingProps (boldRange 0 3) = [(''bold'', JBool True)]"
      "resultingProps (boldRange 7 2) = [(''bold'', JBool True)]"
    by (simp_all add: resultingProps_def boldRange_def)
  have "createOpsFromDelta ((annotateEvent [])\<lparr>ranges := [boldRange 0 3, boldRange 3 2]\<rparr>) =
        [AnnotateOp (position (boldRange 0 3))
           (position (boldRange 0 3) + cachedLength (segment (boldRange 0 3))
              + cachedLength (segment (boldRange 3 2)))
           (resultingProps (boldRange 0 3)) None]"
    using processMergeTreeMsg_history_entry
            [where ev = "annotateEvent []" and ?r1.0 = "boldRange 0 3" and ?r2.0 = "boldRange 3 2",
             THEN conjunct2, THEN conjunct2, THEN conjunct2, THEN conjunct2, THEN conjunct2,
             THEN conjunct2, THEN conjunct1]
          a(1,2) am
    by blast
  then have a1: "createOpsFromDelta (annotateEvent [boldRange 0 3, boldRange 3 2])
              = [AnnotateOp 0 5 [(''bold'', JBool True)] None]"
    unfolding a(4) ap by (simp add: boldRange_def)
  have "createOpsFromDelta ((annotateEvent [])\<lparr>ranges := [boldRange 0 3, boldRange 7 2]\<rparr>) =
        [AnnotateOp (position (boldRange 0 3))
           (position (boldRange 0 3) + cachedLength (segment (boldRange 0 3)))
           (resultingProps (boldRange 0 3)) None,
         AnnotateOp (position (boldRange 7 2))
           (position (boldRange 7 2) + cachedLength (segment (boldRange 7 2)))
           (resultingProps (boldRange 7 2)) None]"
    using processMergeTreeMsg_history_entry
            [where ev = "annotateEvent []" and ?r1.0 = "boldRange 0 3" and ?r2.0 = "boldRange 7 2",
             THEN conjunct2, THEN conjunct2, THEN conjunct2, THEN conjunct2, THEN conjunct2,
             THEN conjunct2, THEN conjunct2, THEN conjunct1]
          a(1,3)
    by blast
  then have a2: "createOpsFromDelta (annotateEvent [boldRange 0 3, boldRange 7 2])
              = [AnnotateOp 0 3 [(''bold'', JBool True)] None,
                 AnnotateOp 7 9 [(''bold'', JBool True)] None]"
    unfolding a(5) ap by (simp add: boldRange_def)
  have g: "createOpsFromDelta \<lparr>deltaOperation = GROUP, ranges = [plainRange 1 1]\<rparr> = []"
    using processMergeTreeMsg_history_entry
            [where ev = "\<lparr>deltaOperation = GROUP, ranges = [plainRange 1 1]\<rparr>",
             THEN conjunct2, THEN conjunct2, THEN conjunct2, THEN conjunct2, THEN conjunct2,
             THEN conjunct2, THEN conjunct2, THEN conjunct2]
    by simp
  from d d1 d2 n t1 t2 t3 i i1 r(1,4) r1 s(2) s1 a(1,2,3) am a1 a2 g show ?thesis
    by simp
qed

text \<open>
  Claim C2. For every sequence of \<open>systemPause\<close>, \<open>pause\<close>, \<open>systemResume\<close> and \<open>resume\<close>
  calls on a \<open>DeltaQueueProxy\<close>, a call invokes the wrapped queue's \<open>resume\<close> only in a
  state where \<open>systemPaused\<close> and \<open>localPaused\<close> are both false. In particular \<open>resume\<close>
  called while \<open>systemPaused\<close> is set, and \<open>systemResume\<close> called while \<open>localPaused\<close> is
  set, invoke nothing and leave the other flag set; and when both flags are set, a resume
  request from both callers, in either order, invokes the queue's \<open>resume\<close> exactly once.
\<close>

theorem proxy_pause_composition:
  "(resumes (run newProxy calls) < resumes (call (run newProxy calls) c) \<longrightarrow>
      \<not> systemPaused (call (run newProxy calls) c) \<and>
      \<not> localPaused (call (run newProxy calls) c)) \<and>
   (systemPaused p \<longrightarrow> queueCalls (resume p) = queueCalls p \<and> systemPaused (resume p)) \<and>
   (localPaused p \<longrightarrow>
      queueCalls (systemResume p) = queueCalls p \<and> localPaused (systemResume p)) \<and>
   (systemPaused p \<and> localPaused p \<longrightarrow>
      queueCalls (systemResume (resume p)) = queueCalls p @ [QueueResume] \<and>
      queueCalls (resume (systemResume p)) = queueCalls p @ [QueueResume])"
proof (intro conjI impI)
  assume "resumes (run newProxy calls) < resumes (call (run newProxy calls) c)"
  then show "\<not> systemPaused (call (run newProxy calls) c)"
    and "\<not> localPaused (call (run newProxy calls) c)"
    using resumes_grow_flags by blast+
qed (simp_all add: resume_def systemResume_def updateResume_def)

theorem proxy_pause_composition_witness:
  "resumes (run newProxy [SystemPause, Pause, Resume])
     < resumes (call (run newProxy [SystemPause, Pause, Resume]) SystemResume) \<and>
   \<not> systemPaused (call (run newProxy [SystemPause, Pause, Resume]) SystemResume) \<and>
   \<not> localPaused (call (run newProxy [SystemPause, Pause, Resume]) SystemResume) \<and>
   systemPaused (run newProxy [SystemPause, Pause]) \<and>
   localPaused (run newProxy [SystemPause, Pause]) \<and>
   queueCalls (resume (run newProxy [SystemPause, Pause])) = [QueuePause, QueuePause] \<and>
   queueCalls (systemResume (run newProxy [SystemPause, Pause])) = [QueuePause, QueuePause] \<and>
   queueCalls (systemResume (resume (run newProxy [SystemPause, Pause])))
     = [QueuePause, QueuePause, QueueResume] \<and>
   queueCalls (resume (systemResume (run newProxy [SystemPause, Pause])))
     = [QueuePause, QueuePause, QueueResume]"
  using proxy_pause_composition
          [of "[SystemPause, Pause, Resume]" SystemResume "run newProxy [SystemPause, Pause]"]
  by (simp add: run_def newProxy_def systemPause_def pause_def resume_def systemResume_def
        updateResume_def resumes_def)

text \<open>
  Claim C3. After \<open>processMergeTreeMsg\<close> has appended the processed message to the history
  buffer, the buffer is compacted if and only if it is longer than 20 and the buffered
  message at index 20 has a sequence number strictly below the incoming message's
  \<open>minimumSequenceNumber\<close>. The compaction pass, \<open>processMinSequenceNumberChanged\<close>, drops
  the first \<open>index\<close> messages, where \<open>index\<close> is where its scan from the front stops: every
  message before it has a sequence number at most that minimum, and the message at
  \<open>index\<close>, if there is one, has a sequence number strictly above it.
\<close>

theorem processMergeTreeMsg_compaction:
  "message < nextAddr st \<longrightarrow>
   (let pushed = messagesSinceMSNChange st @ [stashOf st message];
        st' = snd (processMergeTreeMsg st message (Emits events));
        minSeq = minimumSequenceNumber (store st message);
        index = scanIndex (store st') pushed minSeq 0
    in messagesSinceMSNChange st' =
         (if 20 < length pushed \<and> sequenceNumber (store st' (pushed ! 20)) < minSeq
          then drop index pushed else pushed) \<and>
       messagesSinceMSNChange
         (processMinSequenceNumberChanged (st'\<lparr>messagesSinceMSNChange := pushed\<rparr>) minSeq) =
         drop index pushed \<and>
       index \<le> length pushed \<and>
       (\<forall>j<index. sequenceNumber (store st' (pushed ! j)) \<le> minSeq) \<and>
       (index < length pushed \<longrightarrow> minSeq < sequenceNumber (store st' (pushed ! index))))"
proof
  assume a: "message < nextAddr st"
  show "let pushed = messagesSinceMSNChange st @ [stashOf st message];
        st' = snd (processMergeTreeMsg st message (Emits events));
        minSeq = minimumSequenceNumber (store st message);
        index = scanIndex (store st') pushed minSeq 0
    in messagesSinceMSNChange st' =
         (if 20 < length pushed \<and> sequenceNumber (store st' (pushed ! 20)) < minSeq
          then drop index pushed else pushed) \<and>
       messagesSinceMSNChange
         (processMinSequenceNumberChanged (st'\<lparr>messagesSinceMSNChange := pushed\<rparr>) minSeq) =
         drop index pushed \<and>
       index \<le> length pushed \<and>
       (\<forall>j<index. sequenceNumber (store st' (pushed ! j)) \<le> minSeq) \<and>
       (index < length pushed \<longrightarrow> minSeq < sequenceNumber (store st' (pushed ! index)))"
    unfolding Let_def
  proof (intro conjI allI impI)
    show "messagesSinceMSNChange (snd (processMergeTreeMsg st message (Emits events))) =
      (if 20 < length (messagesSinceMSNChange st @ [stashOf st message]) \<and>
          sequenceNumber (store (snd (processMergeTreeMsg st message (Emits events)))
             ((messagesSinceMSNChange st @ [stashOf st message]) ! 20))
            < minimumSequenceNumber (store st message)
       then drop (scanIndex (store (snd (processMergeTreeMsg st message (Emits events))))
                    (messagesSinceMSNChange st @ [stashOf st message])
                    (minimumSequenceNumber (store st message)) 0)
              (messagesSinceMSNChange st @ [stashOf st message])
       else messagesSinceMSNChange st @ [stashOf st message])"
      unfolding pMTM_buffer [OF a] compactionSpec_def scanIndex_0 dropWhile_eq_drop ..
  next
    show "messagesSinceMSNChange
       (processMinSequenceNumberChanged
         ((snd (processMergeTreeMsg st message (Emits events)))
            \<lparr>messagesSinceMSNChange := messagesSinceMSNChange st @ [stashOf st message]\<rparr>)
         (minimumSequenceNumber (store st message))) =
      drop (scanIndex (store (snd (processMergeTreeMsg st message (Emits events))))
              (messagesSinceMSNChange st @ [stashOf st message])
              (minimumSequenceNumber (store st message)) 0)
        (messagesSinceMSNChange st @ [stashOf st message])"
      by (simp add: pMSNC_drop)
  next
    show "scanIndex (store (snd (processMergeTreeMsg st message (Emits events))))
              (messagesSinceMSNChange st @ [stashOf st message])
              (minimumSequenceNumber (store st message)) 0
          \<le> length (messagesSinceMSNChange st @ [stashOf st message])"
      by (rule scanIndex_le)
  next
    fix j
    assume "j < scanIndex (store (snd (processMergeTreeMsg st message (Emits events))))
              (messagesSinceMSNChange st @ [stashOf st message])
              (minimumSequenceNumber (store st message)) 0"
    then show "sequenceNumber (store (snd (processMergeTreeMsg st message (Emits events)))
                 ((messagesSinceMSNChange st @ [stashOf st message]) ! j))
               \<le> minimumSequenceNumber (store st message)"
      by (rule scanIndex_before)
  next
    assume "scanIndex (store (snd (processMergeTreeMsg st message (Emits events))))
              (messagesSinceMSNChange st @ [stashOf st message])
              (minimumSequenceNumber (store st message)) 0
            < length (messagesSinceMSNChange st @ [stashOf st message])"
    then show "minimumSequenceNumber (store st message)
      < sequenceNumber (store (snd (processMergeTreeMsg st message (Emits events)))
          ((messagesSinceMSNChange st @ [stashOf st message]) !
            scanIndex (store (snd (processMergeTreeMsg st message (Emits events))))
              (messagesSinceMSNChange st @ [stashOf st message])
              (minimumSequenceNumber (store st message)) 0))"
      by (rule scanIndex_at)
  qed
qed

text \<open>
  Twenty-five buffered messages with sequence numbers 1 to 25 and an incoming direct message
  with sequence number 26 and minimum sequence number 23: the message at index 20 has
  sequence number 21, the scan stops at index 23, and the messages with sequence numbers
  24, 25 and 26 remain. With two buffered messages nothing is dropped.
\<close>

theorem processMergeTreeMsg_compaction_witness:
  "25 < nextAddr (exampleState 25 (exampleMessage 26 25 23)) \<and>
   scanIndex (store (snd (processMergeTreeMsg (exampleState 25 (exampleMessage 26 25 23)) 25 (Emits []))))
     (messagesSinceMSNChange (exampleState 25 (exampleMessage 26 25 23)) @
        [stashOf (exampleState 25 (exampleMessage 26 25 23)) 25]) 23 0 = 23 \<and>
   messagesSinceMSNChange
     (snd (processMergeTreeMsg (exampleState 25 (exampleMessage 26 25 23)) 25 (Emits [])))
     = [23, 24, 25] \<and>
   2 < nextAddr (exampleState 2 (exampleMessage 3 2 0)) \<and>
   messagesSinceMSNChange
     (snd (processMergeTreeMsg (exampleState 2 (exampleMessage 3 2 0)) 2 (Emits [])))
     = [0, 1, 2]"
proof -
  let ?ex = "exampleState 25 (exampleMessage 26 25 23)"
  let ?st' = "snd (processMergeTreeMsg ?ex 25 (Emits []))"
  let ?pushed = "messagesSinceMSNChange ?ex @ [stashOf ?ex 25]"
  have h: "25 < nextAddr ?ex"
    by (simp add: exampleState_def)
  have ms: "minimumSequenceNumber (store ?ex 25) = 23"
    by (simp add: exampleState_def exampleMessage_def)
  have cond: "20 < length ?pushed \<and> sequenceNumber (store ?st' (?pushed ! 20)) < 23"
    by code_simp
  have idx: "scanIndex (store ?st') ?pushed 23 0 = 23"
    by code_simp
  have d: "drop 23 ?pushed = [23, 24, 25]"
    by code_simp
  have "messagesSinceMSNChange ?st' =
         (if 20 < length ?pushed \<and> sequenceNumber (store ?st' (?pushed ! 20)) < 23
          then drop (scanIndex (store ?st') ?pushed 23 0) ?pushed else ?pushed)"
    using processMergeTreeMsg_compaction [of 25 ?ex "[]"] h
    unfolding Let_def ms by blast
  then have big: "messagesSinceMSNChange ?st' = [23, 24, 25]"
    unfolding idx d using cond by simp
  let ?ex2 = "exampleState 2 (exampleMessage 3 2 0)"
  have h2: "2 < nextAddr ?ex2"
    by (simp add: exampleState_def)
  have small: "messagesSinceMSNChange (snd (processMergeTreeMsg ?ex2 2 (Emits []))) = [0, 1, 2]"
    using processMergeTreeMsg_compaction [of 2 ?ex2 "[]"] h2
    by (simp add: Let_def exampleState_def exampleMessage_def stashOf_def upt_rec)
  from h idx big h2 small show ?thesis by simp
qed

text \<open>
  Claim C4. When the buffered messages are in strictly increasing order of sequence number,
  every message that remains after \<open>processMinSequenceNumberChanged(minSeq)\<close> has a sequence
  number strictly above \<open>minSeq\<close>. The invariant that every buffered message is above a
  watermark \<open>w\<close> is kept by every operation that changes the buffer:
  \<open>processMinSequenceNumberChanged\<close>; \<open>processMergeTreeMsg\<close>, whatever \<open>applyMsg\<close> does, for
  an incoming message above the watermark; and \<open>snapshotMergeTree\<close>, which moreover leaves
  a loaded sequence's increasing buffer above the delta manager's minimum sequence number.
\<close>

theorem history_buffer_above_watermark:
  "(strictlyIncreasing st \<longrightarrow>
      bufferAbove minSeq (processMinSequenceNumberChanged st minSeq)) \<and>
   (bufferAbove w st \<longrightarrow> bufferAbove w (processMinSequenceNumberChanged st minSeq)) \<and>
   (bufferAbove w st \<and> allocated st \<and> message < nextAddr st \<and>
    w < sequenceNumber (store st message) \<longrightarrow>
      bufferAbove w (snd (processMergeTreeMsg st message applied))) \<and>
   (bufferAbove w st \<longrightarrow>
      bufferAbove w (snd (snapshotMergeTree st deltaManager windowMinSeq))) \<and>
   (isLoaded st \<and> strictlyIncreasing st \<longrightarrow>
      bufferAbove n (snd (snapshotMergeTree st (Some n) windowMinSeq)))"
  using pMSNC_above pMSNC_preserves pMTM_preserves snapshot_preserves snapshot_above
  by blast

text \<open>
  Three buffered messages with sequence numbers 1, 2, 3 and an incoming message with
  sequence number 4 that needs transformation.
\<close>

theorem history_buffer_above_watermark_witness:
  "strictlyIncreasing (exampleState 3 (exampleMessage 4 0 2)) \<and>
   bufferAbove 2 (processMinSequenceNumberChanged (exampleState 3 (exampleMessage 4 0 2)) 2) \<and>
   messagesSinceMSNChange (processMinSequenceNumberChanged (exampleState 3 (exampleMessage 4 0 2)) 2)
     = [2] \<and>
   bufferAbove 0 (exampleState 3 (exampleMessage 4 0 2)) \<and>
   bufferAbove 0 (processMinSequenceNumberChanged (exampleState 3 (exampleMessage 4 0 2)) 2) \<and>
   allocated (exampleState 3 (exampleMessage 4 0 2)) \<and>
   3 < nextAddr (exampleState 3 (exampleMessage 4 0 2)) \<and>
   0 < sequenceNumber (store (exampleState 3 (exampleMessage 4 0 2)) 3) \<and>
   bufferAbove 0
     (snd (processMergeTreeMsg (exampleState 3 (exampleMessage 4 0 2)) 3 (Emits [insertX]))) \<and>
   bufferAbove 0 (snd (snapshotMergeTree (exampleState 3 (exampleMessage 4 0 2)) (Some 2) 2)) \<and>
   isLoaded (exampleState 3 (exampleMessage 4 0 2)) \<and>
   bufferAbove 2 (snd (snapshotMergeTree (exampleState 3 (exampleMessage 4 0 2)) (Some 2) 2))"
proof -
  let ?ex = "exampleState 3 (exampleMessage 4 0 2)"
  have inc: "strictlyIncreasing ?ex"
    by (simp add: strictlyIncreasing_def exampleState_def exampleMessage_def upt_rec)
  have above: "bufferAbove 0 ?ex"
    by (simp add: bufferAbove_def exampleState_def exampleMessage_def upt_rec)
  have alloc: "allocated ?ex" "3 < nextAddr ?ex" "0 < sequenceNumber (store ?ex 3)" "isLoaded ?ex"
    by (simp_all add: allocated_def exampleState_def exampleMessage_def)
  have rest: "messagesSinceMSNChange (processMinSequenceNumberChanged ?ex 2) = [2]"
    by code_simp
  from inc above alloc rest show ?thesis
    using history_buffer_above_watermark
            [of ?ex 2 0 3 "Emits [insertX]" "Some 2" 2 2]
    by simp
qed

text \<open>
  Claim C5. \<open>resolveRemoteClientPosition(pos, refSeq, clientId)\<close> returns what the client's
  method of the same name returns for the same arguments. With the client as the spec
  describes it, the call succeeds and returns a local position when \<open>refSeq\<close> is at least
  the current minimum sequence number, and returns the sentinel, not a position, when
  \<open>refSeq\<close> is older.
\<close>

theorem resolveRemoteClientPosition_gc_safety:
  "(minSeq \<le> refSeq \<longrightarrow>
      resolveRemoteClientPosition (clientResolveRemoteClientPosition transform minSeq)
        pos refSeq cid = Some (transform pos refSeq cid)) \<and>
   (refSeq < minSeq \<longrightarrow>
      resolveRemoteClientPosition (clientResolveRemoteClientPosition transform minSeq)
        pos refSeq cid = None)"
  by (simp add: resolveRemoteClientPosition_def clientResolveRemoteClientPosition_def)

theorem resolveRemoteClientPosition_gc_safety_witness:
  "(5::int) \<le> 7 \<and>
   resolveRemoteClientPosition (clientResolveRemoteClientPosition (\<lambda>p r c. p + 2) 5)
     3 7 ''A'' = Some 5 \<and>
   (4::int) < 5 \<and>
   resolveRemoteClientPosition (clientResolveRemoteClientPosition (\<lambda>p r c. p + 2) 5)
     3 4 ''A'' = None"
  using resolveRemoteClientPosition_gc_safety [of 5 7 "\<lambda>p r c. p + 2" 3 "''A''"]
        resolveRemoteClientPosition_gc_safety [of 5 4 "\<lambda>p r c. p + 2" 3 "''A''"]
  by simp

text \<open>
  Claim C6, at the input where the code departs from it. When reading the header blob
  fails, or populating the interval collections from it throws, \<open>loadCore\<close> is left before
  its \<open>try\<close> block: its own promise is rejected with the cause, \<open>loadFinished\<close> is never
  called and the state is as it was, so the \<open>loaded\<close> promise of a new sequence stays
  pending.
\<close>

theorem loadCore_header_failure_leaves_pending:
  "loadCore newSequence (Inl e) fromBase64ToUtf8 populate initialize = (Some e, newSequence) \<and>
   loadCore newSequence (Inr header) fromBase64ToUtf8 (\<lambda>data. Some e) initialize
     = (Some e, newSequence) \<and>
   loadedDeferred newSequence = Pending"
  by (simp add: loadCore_def newSequence_def)

text \<open>
  Claim C7. \<open>removeRange(start, end)\<close> with \<open>start = end\<close> is a no-op: with the client as
  the spec describes it, the call returns no op and the state, the submitted messages among
  it, is unchanged.
\<close>

theorem removeRange_empty_noop:
  "removeRange removeRangeLocal makeHandlesSerializable st start start = (None, st)"
  by (simp add: removeRange_def removeRangeLocal_def)

text \<open>
  Two calls of \<open>annotateRange\<close> on the adjacent ranges [0, 3) and [3, 5) with the same
  properties submit two ops, not one op for [0, 5).
\<close>

theorem annotateRange_coalescing_counterexample:
  "submitted (annotateRange annotateRangeLocal id
       (annotateRange annotateRangeLocal id newSequence 0 3 [(''bold'', JBool True)] None)
       3 5 [(''bold'', JBool True)] None)
     = [AnnotateOp 0 3 [(''bold'', JBool True)] None,
        AnnotateOp 3 5 [(''bold'', JBool True)] None] \<and>
   submitted (annotateRange annotateRangeLocal id
       (annotateRange annotateRangeLocal id newSequence 0 3 [(''bold'', JBool True)] None)
       3 5 [(''bold'', JBool True)] None)
     \<noteq> [AnnotateOp 0 5 [(''bold'', JBool True)] None]"
  by (simp add: annotateRange_def annotateRangeLocal_def submitSequenceMessage_def
        newSequence_def createAnnotateRangeOp_def)

text \<open>
  Claim C8, amended. \<open>annotateRange\<close> submits, for each call, the op the client returned
  for that call, if any, after the messages submitted before; it merges nothing. The
  coalescing is done by \<open>createOpsFromDelta\<close>, on the ranges of one annotate delta event:
  when two consecutive ranges are contiguous (the second starts where the first ends) and
  their resulting properties match, as identical ones do, the op that covers the first is
  extended over the second, and an event of just these two ranges gives exactly one
  annotate op spanning both.
\<close>

theorem annotate_coalescing_in_createOpsFromDelta:
  "submitted (annotateRange clientAnnotate makeHandlesSerializable st start end props combiningOp) =
     submitted st @ (case clientAnnotate start end props combiningOp of
                       Some annotateOp \<Rightarrow> [makeHandlesSerializable annotateOp]
                     | None \<Rightarrow> []) \<and>
   matchProperties props props \<and>
   (deltaOperation ev = ANNOTATE \<and>
    position r2 = position r1 + cachedLength (segment r1) \<and>
    matchProperties (resultingProps r1) (resultingProps r2) \<longrightarrow>
      createOpsFromDelta (ev\<lparr>ranges := [r1, r2]\<rparr>) =
        [AnnotateOp (position r1)
           (position r1 + cachedLength (segment r1) + cachedLength (segment r2))
           (resultingProps r1) None] \<and>
      (\<exists>front p1 lastProps cop.
         createOpsFromDelta (ev\<lparr>ranges := rs @ [r1]\<rparr>) =
           front @ [AnnotateOp p1 (position r2) lastProps cop] \<and>
         createOpsFromDelta (ev\<lparr>ranges := rs @ [r1, r2]\<rparr>) =
           front @ [AnnotateOp p1 (position r2 + cachedLength (segment r2)) lastProps cop] \<and>
         matchProperties lastProps (resultingProps r1)))"
proof (intro conjI impI)
  show "submitted (annotateRange clientAnnotate makeHandlesSerializable st start end props combiningOp) =
     submitted st @ (case clientAnnotate start end props combiningOp of
                       Some annotateOp \<Rightarrow> [makeHandlesSerializable annotateOp]
                     | None \<Rightarrow> [])"
    by (simp add: annotateRange_def submitSequenceMessage_def split: option.splits)
next
  show "matchProperties props props"
    by (rule matchProperties_refl)
next
  assume a: "deltaOperation ev = ANNOTATE \<and>
    position r2 = position r1 + cachedLength (segment r1) \<and>
    matchProperties (resultingProps r1) (resultingProps r2)"
  then show "createOpsFromDelta (ev\<lparr>ranges := [r1, r2]\<rparr>) =
        [AnnotateOp (position r1)
           (position r1 + cachedLength (segment r1) + cachedLength (segment r2))
           (resultingProps r1) None]"
    using annotate_two_ranges by blast
  from a show "\<exists>front p1 lastProps cop.
         createOpsFromDelta (ev\<lparr>ranges := rs @ [r1]\<rparr>) =
           front @ [AnnotateOp p1 (position r2) lastProps cop] \<and>
         createOpsFromDelta (ev\<lparr>ranges := rs @ [r1, r2]\<rparr>) =
           front @ [AnnotateOp p1 (position r2 + cachedLength (segment r2)) lastProps cop] \<and>
         matchProperties lastProps (resultingProps r1)"
    using annotate_contiguous_coalesce by blast
qed

text \<open>
  An annotate event over two bold ranges, [0, 3) and [3, 5), gives the one op for [0, 5).
\<close>

theorem annotate_coalescing_in_createOpsFromDelta_witness:
  "deltaOperation (annotateEvent []) = ANNOTATE \<and>
   position (boldRange 3 2) = position (boldRange 0 3) + cachedLength (segment (boldRange 0 3)) \<and>
   matchProperties (resultingProps (boldRange 0 3)) (resultingProps (boldRange 3 2)) \<and>
   createOpsFromDelta (annotateEvent [boldRange 0 3, boldRange 3 2]) =
     [AnnotateOp 0 5 [(''bold'', JBool True)] None] \<and>
   submitted (annotateRange annotateRangeLocal id newSequence 0 3 [(''bold'', JBool True)] None)
     = [AnnotateOp 0 3 [(''bold'', JBool True)] None]"
proof -
  have m: "matchProperties (resultingProps (boldRange 0 3)) (resultingProps (boldRange 3 2))"
    by code_simp
  have p: "resultingProps (boldRange 0 3) = [(''bold'', JBool True)]"
    by code_simp
  have e: "(annotateEvent [])\<lparr>ranges := [boldRange 0 3, boldRange 3 2]\<rparr> =
           annotateEvent [boldRange 0 3, boldRange 3 2]"
    by (simp add: annotateEvent_def)
  have c: "position (boldRange 3 2) = position (boldRange 0 3) + cachedLength (segment (boldRange 0 3))"
          "position (boldRange 0 3) = 0" "cachedLength (segment (boldRange 0 3)) = 3"
          "cachedLength (segment (boldRange 3 2)) = 2"
    by (simp_all add: boldRange_def)
  have d: "deltaOperation (annotateEvent []) = ANNOTATE"
    by (simp add: annotateEvent_def)
  from m p e c d show ?thesis
    using annotate_coalescing_in_createOpsFromDelta
            [of annotateRangeLocal id newSequence 0 3 "[(''bold'', JBool True)]" None
                "annotateEvent []" "boldRange 3 2" "boldRange 0 3" "[]"]
    by (simp add: annotateRangeLocal_def createAnnotateRangeOp_def newSequence_def)
qed



text \<open>
  Claim C10. \<open>localRefToPos(localRef)\<close> returns the reference's offset plus the position of
  its segment, as \<open>getPosition\<close> gives it, when the reference has a segment, and the
  sentinel -1 when its segment is unset.
\<close>

theorem localRefToPos_anchored_or_sentinel:
  "localRefToPos getPosition (localRef\<lparr>lref_segment := Some seg\<rparr>)
     = lref_offset localRef + getPosition seg \<and>
   localRefToPos getPosition (localRef\<lparr>lref_segment := None\<rparr>) = - 1"
  by (simp add: localRefToPos_def)

end
